theory Spec2Isabelle
  imports Main
begin

section \<open>Python strings\<close>

text \<open>
  A Python \<open>str\<close> is a sequence of Unicode code points and \<open>len\<close> counts code points,
  so a string is modelled as a list of code points (natural numbers).  \<open>str\<close> turns an
  ASCII literal of the source into that representation.
\<close>

type_synonym codepoint = nat
type_synonym pystr = "codepoint list"

definition str :: "string \<Rightarrow> pystr" where
  "str s = map of_char s"

text \<open>
  The code points Python treats as whitespace in \<open>str.split()\<close> and \<open>str.strip()\<close>
  (CPython's \<open>_PyUnicode_IsWhitespace\<close>).
\<close>

definition py_isspace :: "codepoint \<Rightarrow> bool" where
  "py_isspace c \<longleftrightarrow>
     (9 \<le> c \<and> c \<le> 13) \<or> (28 \<le> c \<and> c \<le> 32) \<or> c = 133 \<or> c = 160 \<or> c = 5760 \<or>
     (8192 \<le> c \<and> c \<le> 8202) \<or> c = 8232 \<or> c = 8233 \<or> c = 8239 \<or> c = 8287 \<or> c = 12288"

text \<open>
  \<open>text.split()\<close>: the maximal runs of non-whitespace code points, in order.  The first
  argument is the word read so far.
\<close>

fun split_ws :: "pystr \<Rightarrow> pystr \<Rightarrow> pystr list" where
  "split_ws w [] = (if w = [] then [] else [w])"
| "split_ws w (c # cs) =
     (if py_isspace c then (if w = [] then split_ws [] cs else w # split_ws [] cs)
      else split_ws (w @ [c]) cs)"

definition py_split :: "pystr \<Rightarrow> pystr list" where
  "py_split s = split_ws [] s"

text \<open>\<open>sep.join(xs)\<close>.\<close>

fun py_join :: "pystr \<Rightarrow> pystr list \<Rightarrow> pystr" where
  "py_join sep [] = []"
| "py_join sep [x] = x"
| "py_join sep (x # y # ys) = x @ sep @ py_join sep (y # ys)"

text \<open>\<open>" ".join(text.split())\<close>, the whitespace normalisation used throughout.\<close>

definition normalize_ws :: "pystr \<Rightarrow> pystr" where
  "normalize_ws s = py_join [32] (py_split s)"

text \<open>\<open>s.strip()\<close>.\<close>

definition py_strip :: "pystr \<Rightarrow> pystr" where
  "py_strip s = rev (dropWhile py_isspace (rev (dropWhile py_isspace s)))"

text \<open>
  \<open>text.split(". ")\<close>: the pieces between the non-overlapping occurrences of the
  separator \<open>". "\<close> (code points 46, 32), scanned from the left.  The first argument is
  the piece read so far; the result always has at least one piece.
\<close>

fun split_sep :: "pystr \<Rightarrow> pystr \<Rightarrow> pystr list" where
  "split_sep w [] = [w]"
| "split_sep w [c] = [w @ [c]]"
| "split_sep w (c # d # cs) =
     (if c = 46 \<and> d = 32 then w # split_sep [] cs else split_sep (w @ [c]) (d # cs))"

definition split_sentences :: "pystr \<Rightarrow> pystr list" where
  "split_sentences s = split_sep [] s"

text \<open>\<open>len(s)\<close> as a Python integer.\<close>

definition py_len :: "pystr \<Rightarrow> int" where
  "py_len s = int (length s)"

section \<open>Exceptions, log records and the process state\<close>

text \<open>A raised exception, with the text \<open>str(e)\<close> gives for it.\<close>

datatype exn = Exception pystr

datatype level = INFO | WARNING | ERROR

text \<open>One constructor for each message the modelled functions pass to \<open>logger\<close>.\<close>

datatype message =
    LoadingModel
  | ModelLoaded
  | ModelLoadError exn
  | TruncationFallbackNotice
  | SummarizerUnavailable
  | ChunkSummarizationError exn
  | FinalPassFailed exn
  | UnexpectedSummarizationError exn
  | DatabaseError exn
  | Non200Status int pystr
  | RequestError pystr exn
  | NotEnoughText pystr pystr
  | SearchingAllSources pystr
  | SearchingSource pystr
  | TotalResults nat
  | EndpointError exn

type_synonym log_record = "level \<times> message"

text \<open>
  The summarisation pipeline object: called on a text with \<open>max_length\<close> and
  \<open>min_length\<close>, it raises or yields the \<open>summary_text\<close> of its first result.
\<close>

type_synonym engine = "pystr \<Rightarrow> int \<Rightarrow> int \<Rightarrow> exn + pystr"

text \<open>
  The module's mutable globals: \<open>_summarizer\<close> and the records emitted through
  \<open>logger\<close> (oldest first).  \<open>loads\<close> and \<open>engine_inputs\<close> are ghost fields that count
  the constructions of the pipeline and list the texts handed to it.
\<close>

record world =
  summarizer :: "engine option"
  log :: "log_record list"
  loads :: nat
  engine_inputs :: "pystr list"

definition emit :: "level \<Rightarrow> message \<Rightarrow> world \<Rightarrow> world" where
  "emit l m w = w\<lparr>log := log w @ [(l, m)]\<rparr>"

section \<open>Summarisation model, loaded lazily\<close>

text \<open>
  \<open>load_models_with_caching\<close>; \<open>pipeline\<close> is what the call
  \<open>pipeline("summarization", model="t5-small", tokenizer="t5-small")\<close> does: it raises, or
  returns the engine.
\<close>

definition load_models_with_caching :: "(exn + engine) \<Rightarrow> world \<Rightarrow> world" where
  "load_models_with_caching pipeline w =
     (let w1 = (emit INFO LoadingModel w)\<lparr>loads := loads w + 1\<rparr> in
      case pipeline of
        Inr eng \<Rightarrow> emit INFO ModelLoaded (w1\<lparr>summarizer := Some eng\<rparr>)
      | Inl e \<Rightarrow> emit WARNING TruncationFallbackNotice (emit ERROR (ModelLoadError e) w1))"

text \<open>\<open>get_summarizer\<close>: both tests of the double-checked initialisation are kept.\<close>

definition get_summarizer :: "(exn + engine) \<Rightarrow> world \<Rightarrow> world \<times> engine option" where
  "get_summarizer pipeline w =
     (let w' = (if summarizer w = None
                then (if summarizer w = None then load_models_with_caching pipeline w else w)
                else w)
      in (w', summarizer w'))"

section \<open>Text chunker\<close>

text \<open>
  The loop of \<open>_chunk_text\<close> over the pieces of \<open>text.split(". ")\<close>, carrying
  \<open>chunks\<close> and \<open>current\<close>.
\<close>

fun chunk_loop :: "int \<Rightarrow> pystr list \<Rightarrow> pystr list \<Rightarrow> pystr list \<Rightarrow> pystr list \<times> pystr list" where
  "chunk_loop max_chars [] chunks current = (chunks, current)"
| "chunk_loop max_chars (piece # rest) chunks current =
     (let sentence = py_strip piece in
      if sentence = [] then chunk_loop max_chars rest chunks current
      else
        let candidate = py_strip (py_join [46, 32] (current @ [sentence])) in
        if py_len candidate \<le> max_chars
        then chunk_loop max_chars rest chunks (current @ [sentence])
        else chunk_loop max_chars rest
               (if current \<noteq> [] then chunks @ [py_strip (py_join [46, 32] current)] else chunks)
               [sentence])"

text \<open>\<open>_chunk_text(text, max_chars)\<close>.\<close>

definition chunk_text :: "pystr \<Rightarrow> int \<Rightarrow> pystr list" where
  "chunk_text text max_chars =
     (let text = normalize_ws text in
      if py_len text \<le> max_chars then [text]
      else
        (case chunk_loop max_chars (split_sentences text) [] [] of
           (chunks, current) \<Rightarrow>
             if current \<noteq> [] then chunks @ [py_strip (py_join [46, 32] current)] else chunks))"

section \<open>Summariser\<close>

text \<open>\<open>(t[:800] + "...") if len(t) > 800 else t\<close>, the truncation fallback.\<close>

definition truncation_fallback :: "pystr \<Rightarrow> pystr" where
  "truncation_fallback t = (if py_len t > 800 then take 800 t @ str ''...'' else t)"

text \<open>
  The loop over the chunks in \<open>summarize_text\<close>: a chunk whose summarisation raises
  contributes its first 300 code points.
\<close>

fun summarize_chunks :: "engine \<Rightarrow> pystr list \<Rightarrow> world \<Rightarrow> pystr list \<Rightarrow> world \<times> pystr list" where
  "summarize_chunks eng [] w partial_summaries = (w, partial_summaries)"
| "summarize_chunks eng (chunk # rest) w partial_summaries =
     (let w1 = w\<lparr>engine_inputs := engine_inputs w @ [chunk]\<rparr> in
      case eng chunk 120 40 of
        Inr summary \<Rightarrow> summarize_chunks eng rest w1 (partial_summaries @ [py_strip summary])
      | Inl e \<Rightarrow>
          summarize_chunks eng rest (emit WARNING (ChunkSummarizationError e) w1)
            (partial_summaries @ [take 300 chunk]))"

text \<open>
  The body of the outer \<open>try\<close> of \<open>summarize_text\<close>.  Every call of the engine has a
  handler of its own, so this body yields a string on each path.
\<close>

definition summarize_with :: "engine \<Rightarrow> world \<Rightarrow> pystr \<Rightarrow> world \<times> (exn + pystr)" where
  "summarize_with eng w text =
     (case summarize_chunks eng (chunk_text text 700) w [] of
        (w1, partial_summaries) \<Rightarrow>
          let combined = normalize_ws (py_join [32] partial_summaries) in
          if py_len combined \<le> 500 then (w1, Inr combined)
          else
            let w2 = w1\<lparr>engine_inputs := engine_inputs w1 @ [combined]\<rparr> in
            (case eng combined 150 50 of
               Inr final_summary \<Rightarrow> (w2, Inr (py_strip final_summary))
             | Inl e2 \<Rightarrow> (emit WARNING (FinalPassFailed e2) w2, Inr (truncation_fallback combined))))"

text \<open>\<open>summarize_text(text)\<close>.\<close>

definition summarize_text :: "(exn + engine) \<Rightarrow> world \<Rightarrow> pystr \<Rightarrow> world \<times> (exn + pystr)" where
  "summarize_text pipeline w text =
     (if text = [] then (w, Inr [])
      else
        let text = normalize_ws text in
        if py_len text \<le> 400 then (w, Inr text)
        else
          (case get_summarizer pipeline w of
             (w1, None) \<Rightarrow> (emit WARNING SummarizerUnavailable w1, Inr (truncation_fallback text))
           | (w1, Some eng) \<Rightarrow>
               (case summarize_with eng w1 text of
                  (w2, Inr r) \<Rightarrow> (w2, Inr r)
                | (w2, Inl e) \<Rightarrow>
                    (emit ERROR (UnexpectedSummarizationError e) w2, Inr (truncation_fallback text)))))"

section \<open>Document fetcher\<close>

text \<open>What \<open>requests.get\<close> does for a URL: a response with its status code and text, or an exception.\<close>

datatype http_outcome = Response int pystr | RequestFailed exn


section \<open>Article extraction\<close>

text \<open>
  The parsed document is consulted only through a few queries, so it is modelled by their
  answers.  For an element: the stripped text of its first \<open>h1\<close>, the \<open>src\<close> of its first
  \<open>img\<close> (\<open>None\<close> when there is no image or no such attribute) and the stripped texts of its
  \<open>p\<close> elements.  For the document: \<open>find("div", class_=c)\<close>, \<open>find("article")\<close>, the text of
  the first \<open>h1\<close>, the \<open>content\<close> of the \<open>og:image\<close> meta tag, the texts of the
  \<open>data-component="text-block"\<close> elements and of all \<open>p\<close> elements.
\<close>

record element =
  h1_text :: "pystr option"
  img_src :: "pystr option"
  paragraphs :: "pystr list"

record soup =
  find_div :: "string \<Rightarrow> element option"
  find_article :: "element option"
  first_h1 :: "pystr option"
  og_image :: "pystr option"
  text_blocks :: "pystr list"
  all_paragraphs :: "pystr list"

text \<open>
  The collaborators outside the repository: the pipeline constructor, the HTTP client,
  the HTML parser, the clock and the faults of the database (both indexed by the number of
  statements executed so far), and the builtins \<open>str.lower\<close> and \<open>int\<close> (\<open>None\<close> for a
  \<open>ValueError\<close>).
\<close>

record env =
  pipeline :: "exn + engine"
  http :: "pystr \<Rightarrow> http_outcome"
  parse :: "pystr \<Rightarrow> soup"
  db_clock :: "nat \<Rightarrow> nat"
  db_fault :: "nat \<Rightarrow> exn option"
  str_lower :: "pystr \<Rightarrow> pystr"
  int_of_str :: "pystr \<Rightarrow> int option"

text \<open>A headline dictionary: keys with a string or \<open>None\<close> as value.\<close>

type_synonym headline = "(string \<times> pystr option) list"





















section \<open>Database manager\<close>

text \<open>
  A row of the table \<open>headlinesData\<close>; a column that holds \<open>NULL\<close> is \<open>None\<close>.  The store
  keeps the rows in insertion order, the largest row id ever given (\<open>AUTOINCREMENT\<close>) and
  the number of statements executed.
\<close>

record row =
  r_id :: nat
  r_source :: "pystr option"
  r_url :: "pystr option"
  r_picture :: "pystr option"
  r_heading :: "pystr option"
  r_blog :: "pystr option"
  r_timestamp :: nat

record store =
  rows :: "row list"
  seq :: nat
  executed :: nat

text \<open>\<open>d.get(k)\<close> and \<open>d.get(k, default)\<close> on a headline dictionary.\<close>

definition dict_get :: "headline \<Rightarrow> string \<Rightarrow> pystr option" where
  "dict_get d k = (case map_of d k of Some v \<Rightarrow> v | None \<Rightarrow> None)"

definition dict_get_default :: "headline \<Rightarrow> string \<Rightarrow> pystr \<Rightarrow> pystr option" where
  "dict_get_default d k dflt = (case map_of d k of Some v \<Rightarrow> v | None \<Rightarrow> Some dflt)"

text \<open>
  \<open>INSERT OR REPLACE INTO headlinesData (url, source, picture, heading, blog)\<close>: the rows
  whose \<open>url\<close> equals the new, non-\<open>NULL\<close> \<open>url\<close> violate \<open>UNIQUE\<close> and are deleted; the new
  row gets a fresh id and the current time.
\<close>

definition insert_or_replace ::
  "nat \<Rightarrow> pystr option \<Rightarrow> pystr option \<Rightarrow> pystr option \<Rightarrow> pystr option \<Rightarrow> pystr option \<Rightarrow>
   store \<Rightarrow> store" where
  "insert_or_replace now u src pic hdg bl s =
     (let kept = filter (\<lambda>r. u = None \<or> r_url r \<noteq> u) (rows s);
          new = \<lparr>r_id = seq s + 1, r_source = src, r_url = u, r_picture = pic, r_heading = hdg,
                 r_blog = bl, r_timestamp = now\<rparr>
      in s\<lparr>rows := kept @ [new], seq := seq s + 1\<rparr>)"

text \<open>\<open>DatabaseManager.save_headline(headline_data)\<close>.\<close>

definition save_headline :: "env \<Rightarrow> headline \<Rightarrow> world \<times> store \<Rightarrow> world \<times> store" where
  "save_headline E headline_data ws =
     (case ws of (w, s) \<Rightarrow>
        if headline_data = [] \<or> map_of headline_data ''url'' = None then (w, s)
        else
          (case db_fault E (executed s) of
             Some e \<Rightarrow> (emit ERROR (DatabaseError e) w, s\<lparr>executed := executed s + 1\<rparr>)
           | None \<Rightarrow>
               (w, (insert_or_replace (db_clock E (executed s))
                      (dict_get headline_data ''url'')
                      (dict_get_default headline_data ''source'' (str ''unknown''))
                      (dict_get headline_data ''picture'')
                      (dict_get headline_data ''heading'')
                      (dict_get headline_data ''blog'') s)\<lparr>executed := executed s + 1\<rparr>)))"

text \<open>The rows stored under a URL.\<close>

definition rows_for :: "pystr \<Rightarrow> store \<Rightarrow> row list" where
  "rows_for u s = filter (\<lambda>r. r_url r = Some u) (rows s)"

section \<open>Search orchestrator\<close>

text \<open>
  A \<open>search_*_news\<close> method of the scraper, seen from its caller: given the query it
  changes the globals and returns its headlines or raises.
\<close>

type_synonym adapter = "pystr \<Rightarrow> world \<Rightarrow> world \<times> (exn + headline list)"

record scraper =
  search_geo_news :: adapter
  search_bbc_news :: adapter
  search_ary_news :: adapter
  search_samaa_news :: adapter
  search_dawn_news :: adapter

text \<open>
  The state of the application: the globals, the database, and a ghost list of the
  adapters invoked so far, extended at each call site.
\<close>

record app =
  globals :: world
  db :: store
  invoked :: "string list"

definition emit_app :: "level \<Rightarrow> message \<Rightarrow> app \<Rightarrow> app" where
  "emit_app l m a = a\<lparr>globals := emit l m (globals a)\<rparr>"

definition call_adapter :: "string \<Rightarrow> adapter \<Rightarrow> pystr \<Rightarrow> app \<Rightarrow> app \<times> (exn + headline list)" where
  "call_adapter name f query a =
     (case f query (globals a) of
        (w, r) \<Rightarrow> (a\<lparr>globals := w, invoked := invoked a @ [name]\<rparr>, r))"

text \<open>
  One step of \<open>search_all_sources\<close>: \<open>logger.info("Searching ... News...")\<close>, then
  \<open>all_results.extend(self.search_*_news(query))\<close>.  An exception that reached this
  step, or that the adapter raises, goes on to the caller.
\<close>

definition extend_with ::
  "pystr \<Rightarrow> string \<Rightarrow> adapter \<Rightarrow> pystr \<Rightarrow> app \<times> (exn + headline list) \<Rightarrow> app \<times> (exn + headline list)" where
  "extend_with label name f query st =
     (case st of
        (a, Inl e) \<Rightarrow> (a, Inl e)
      | (a, Inr all_results) \<Rightarrow>
          (case call_adapter name f query (emit_app INFO (SearchingSource label) a) of
             (a1, Inl e) \<Rightarrow> (a1, Inl e)
           | (a1, Inr results) \<Rightarrow> (a1, Inr (all_results @ results))))"

text \<open>\<open>NewsScraper.search_all_sources(query)\<close>.\<close>

definition search_all_sources :: "scraper \<Rightarrow> pystr \<Rightarrow> app \<Rightarrow> app \<times> (exn + headline list)" where
  "search_all_sources S query a =
     (let st0 = (emit_app INFO (SearchingAllSources query) a, Inr []);
          st1 = extend_with (str ''Geo'') ''geo'' (search_geo_news S) query st0;
          st2 = extend_with (str ''BBC'') ''bbc'' (search_bbc_news S) query st1;
          st3 = extend_with (str ''ARY'') ''ary'' (search_ary_news S) query st2;
          st4 = extend_with (str ''Samaa'') ''samaa'' (search_samaa_news S) query st3;
          st5 = extend_with (str ''Dawn'') ''dawn'' (search_dawn_news S) query st4
      in case st5 of
           (a1, Inl e) \<Rightarrow> (a1, Inl e)
         | (a1, Inr all_results) \<Rightarrow>
             (emit_app INFO (TotalResults (length all_results)) a1, Inr all_results))"

definition source_order :: "string list" where
  "source_order = [''geo'', ''bbc'', ''ary'', ''samaa'', ''dawn'']"

section \<open>HTTP endpoints\<close>

text \<open>\<open>request.args.get(key, default)\<close> and \<open>request.args.get(key)\<close>.\<close>

type_synonym args = "(string \<times> pystr) list"

definition args_get :: "args \<Rightarrow> string \<Rightarrow> pystr \<Rightarrow> pystr" where
  "args_get as k dflt = (case map_of as k of Some v \<Rightarrow> v | None \<Rightarrow> dflt)"



text \<open>The JSON bodies of \<open>search_news\<close> and a response: status code and body.\<close>

datatype body =
    ErrorBody pystr
  | SuccessBody pystr pystr nat "headline list"

type_synonym response = "nat \<times> body"

fun exn_text :: "exn \<Rightarrow> pystr" where
  "exn_text (Exception m) = m"

text \<open>\<open>for result in results: db.save_headline(result)\<close>.\<close>

fun save_all :: "env \<Rightarrow> headline list \<Rightarrow> world \<times> store \<Rightarrow> world \<times> store" where
  "save_all E [] ws = ws"
| "save_all E (result # rest) ws = save_all E rest (save_headline E result ws)"

definition save_results :: "env \<Rightarrow> headline list \<Rightarrow> app \<Rightarrow> app" where
  "save_results E results a =
     (case save_all E results (globals a, db a) of (w, s) \<Rightarrow> a\<lparr>globals := w, db := s\<rparr>)"

text \<open>
  The \<open>if\<close>/\<open>elif\<close> chain of \<open>search_news\<close> on the source selector; \<open>None\<close> is its
  \<open>else\<close> branch.
\<close>

definition dispatch :: "scraper \<Rightarrow> pystr \<Rightarrow> pystr \<Rightarrow> app \<Rightarrow> (app \<times> (exn + headline list)) option" where
  "dispatch S source query a =
     (if source = str ''geo'' then Some (call_adapter ''geo'' (search_geo_news S) query a)
      else if source = str ''bbc'' then Some (call_adapter ''bbc'' (search_bbc_news S) query a)
      else if source = str ''ary'' then Some (call_adapter ''ary'' (search_ary_news S) query a)
      else if source = str ''samaa'' then Some (call_adapter ''samaa'' (search_samaa_news S) query a)
      else if source = str ''dawn'' then Some (call_adapter ''dawn'' (search_dawn_news S) query a)
      else if source = str ''all'' then Some (search_all_sources S query a)
      else None)"

text \<open>\<open>search_news()\<close>, the live-search endpoint.\<close>

definition search_news :: "env \<Rightarrow> scraper \<Rightarrow> args \<Rightarrow> app \<Rightarrow> app \<times> response" where
  "search_news E S as a =
     (let query = py_strip (args_get as ''query'' []);
          source = str_lower E (args_get as ''source'' (str ''all''))
      in if query = [] then (a, (400, ErrorBody (str ''Query parameter is required'')))
         else
           (case dispatch S source query a of
              None \<Rightarrow> (a, (400, ErrorBody (str ''Unknown source '' @ [39] @ source @ [39])))
            | Some (a1, Inl e) \<Rightarrow> (emit_app ERROR (EndpointError e) a1, (500, ErrorBody (exn_text e)))
            | Some (a1, Inr results) \<Rightarrow>
                (save_results E results a1, (200, SuccessBody query source (length results) results))))"

text \<open>The selectors the endpoint knows.\<close>

definition known_sources :: "pystr set" where
  "known_sources = {str ''geo'', str ''bbc'', str ''ary'', str ''samaa'', str ''dawn'', str ''all''}"

section \<open>Sample collaborators\<close>

text \<open>
  A sample of \<open>str.lower\<close>.  It agrees with it on the code points below 256, where
  lower-casing maps single code points; Python also changes code points above (U+0130 and
  U+212A among them), which the sample leaves alone.  It is applied to ASCII selectors only.
\<close>

definition ascii_lower :: "pystr \<Rightarrow> pystr" where
  "ascii_lower s =
     map (\<lambda>c. if (65 \<le> c \<and> c \<le> 90) \<or> (192 \<le> c \<and> c \<le> 222 \<and> c \<noteq> 215) then c + 32 else c) s"

text \<open>
  A sample of \<open>int(s)\<close>.  It agrees with it on the two strings it is applied to, \<open>abc\<close>
  (a \<open>ValueError\<close>) and \<open>25\<close>.  It is not \<open>int\<close> on every string: \<open>int\<close> also accepts
  digit groups joined by underscores and digits outside ASCII, and does not strip the
  code points U+001C to U+001F.
\<close>

definition ascii_int :: "pystr \<Rightarrow> int option" where
  "ascii_int s =
     (let t = py_strip s;
          neg = (t \<noteq> [] \<and> hd t = 45);
          ds = (if t \<noteq> [] \<and> (hd t = 45 \<or> hd t = 43) then tl t else t)
      in if ds \<noteq> [] \<and> list_all (\<lambda>c. 48 \<le> c \<and> c \<le> 57) ds
         then Some ((if neg then - 1 else 1) * foldl (\<lambda>n c. 10 * n + int (c - 48)) 0 ds)
         else None)"

text \<open>
  Three engines: one that always answers with the same word, one that always answers
  with the empty string, one that always raises; and the globals at start-up.
\<close>

definition fixed_engine :: engine where
  "fixed_engine t max_length min_length = Inr (str ''news'')"

definition blank_engine :: engine where
  "blank_engine t max_length min_length = Inr []"

definition failing_engine :: engine where
  "failing_engine t max_length min_length = Inl (Exception (str ''engine failure''))"

definition world0 :: world where
  "world0 = \<lparr>summarizer = None, log = [], loads = 0, engine_inputs = []\<rparr>"

text \<open>An HTTP client that knows three URLs, and an environment built on it.\<close>

definition sample_http :: "pystr \<Rightarrow> http_outcome" where
  "sample_http url =
     (if url = str ''ok'' then Response 200 (str ''<p>hello</p>'')
      else if url = str ''gone'' then Response 404 (str ''not found'')
      else RequestFailed (Exception (str ''timed out'')))"

definition sample_env :: env where
  "sample_env =
     \<lparr>pipeline = Inr fixed_engine, http = sample_http,
      parse = (\<lambda>html. \<lparr>find_div = (\<lambda>c. None), find_article = None, first_h1 = Some (str ''Title''),
                         og_image = None, text_blocks = [], all_paragraphs = [str ''hello'']\<rparr>),
      db_clock = (\<lambda>n. 1000 + n), db_fault = (\<lambda>n. None),
      str_lower = ascii_lower, int_of_str = ascii_int\<rparr>"

text \<open>The empty database and a headline as an adapter builds it.\<close>

definition store0 :: store where
  "store0 = \<lparr>rows = [], seq = 0, executed = 0\<rparr>"

definition sample_headline :: "pystr \<Rightarrow> headline" where
  "sample_headline blog =
     [(''source'', Some (str ''bbc'')), (''url'', Some (str ''https://www.bbc.com/news/1'')),
      (''picture'', None), (''heading'', Some (str ''Title'')), (''blog'', Some blog)]"

text \<open>
  The application at start-up; a scraper whose adapters find nothing; and a scraper whose
  BBC adapter raises while the Geo and ARY adapters each find one article.
\<close>

definition app0 :: app where
  "app0 = \<lparr>globals = world0, db = store0, invoked = []\<rparr>"

definition quiet_scraper :: scraper where
  "quiet_scraper =
     \<lparr>search_geo_news = (\<lambda>q w. (w, Inr [])), search_bbc_news = (\<lambda>q w. (w, Inr [])),
      search_ary_news = (\<lambda>q w. (w, Inr [])), search_samaa_news = (\<lambda>q w. (w, Inr [])),
      search_dawn_news = (\<lambda>q w. (w, Inr []))\<rparr>"

definition failing_scraper :: scraper where
  "failing_scraper =
     \<lparr>search_geo_news = (\<lambda>q w. (w, Inr [sample_headline (str ''from geo'')])),
      search_bbc_news = (\<lambda>q w. (w, Inl (Exception (str ''parser error'')))),
      search_ary_news = (\<lambda>q w. (w, Inr [sample_headline (str ''from ary'')])),
      search_samaa_news = (\<lambda>q w. (w, Inr [])),
      search_dawn_news = (\<lambda>q w. (w, Inr []))\<rparr>"

text \<open>A text of 401 letters \<open>a\<close>: too long to be returned as it is.\<close>

definition long_text :: pystr where
  "long_text = replicate 401 97"

section \<open>Predicates used in the statements\<close>

text \<open>A string that is not empty and neither starts nor ends with whitespace.\<close>

definition trimmed :: "pystr \<Rightarrow> bool" where
  "trimmed s \<longleftrightarrow> s \<noteq> [] \<and> \<not> py_isspace (hd s) \<and> \<not> py_isspace (last s)"

text \<open>A string with a code point that is not whitespace.\<close>

definition has_text :: "pystr \<Rightarrow> bool" where
  "has_text s \<longleftrightarrow> list_ex (\<lambda>c. \<not> py_isspace c) s"

text \<open>The sentences the chunker sees: the stripped pieces of the normalised text.\<close>

definition sentences_of :: "pystr \<Rightarrow> pystr list" where
  "sentences_of t = map py_strip (split_sentences (normalize_ws t))"

text \<open>An engine whose every summary has a code point that is not whitespace.\<close>

definition engine_speaks :: "engine \<Rightarrow> bool" where
  "engine_speaks eng \<longleftrightarrow> (\<forall>t mx mn s. eng t mx mn = Inr s \<longrightarrow> has_text s)"

text \<open>Invariants of the chunking loop, relative to the bound and the sentences.\<close>

definition chunk_ok :: "int \<Rightarrow> pystr set \<Rightarrow> pystr \<Rightarrow> bool" where
  "chunk_ok m S c \<longleftrightarrow> trimmed c \<and> (py_len c \<le> m \<or> (c \<in> S \<and> py_len c > m))"

definition loop_inv :: "int \<Rightarrow> pystr set \<Rightarrow> pystr list \<times> pystr list \<Rightarrow> bool" where
  "loop_inv m S p \<longleftrightarrow>
     (\<forall>c \<in> set (fst p). chunk_ok m S c) \<and>
     (\<forall>s \<in> set (snd p). trimmed s) \<and>
     (snd p = [] \<or> chunk_ok m S (py_join [46, 32] (snd p)))"

text \<open>The row that a successful \<open>save_headline\<close> writes.\<close>

definition row_of :: "env \<Rightarrow> headline \<Rightarrow> store \<Rightarrow> row" where
  "row_of E d s =
     \<lparr>r_id = seq s + 1,
      r_source = dict_get_default d ''source'' (str ''unknown''),
      r_url = dict_get d ''url'',
      r_picture = dict_get d ''picture'',
      r_heading = dict_get d ''heading'',
      r_blog = dict_get d ''blog'',
      r_timestamp = db_clock E (executed s)\<rparr>"

text \<open>The adapter of a source name, and the fact that it raises \<open>e\<close> on the query from some state.\<close>

definition adapter_of :: "scraper \<Rightarrow> string \<Rightarrow> adapter" where
  "adapter_of S name =
     (if name = ''geo'' then search_geo_news S
      else if name = ''bbc'' then search_bbc_news S
      else if name = ''ary'' then search_ary_news S
      else if name = ''samaa'' then search_samaa_news S
      else search_dawn_news S)"

definition raised_by :: "scraper \<Rightarrow> pystr \<Rightarrow> exn \<Rightarrow> string \<Rightarrow> bool" where
  "raised_by S q e name \<longleftrightarrow> (\<exists>w w'. adapter_of S name q w = (w', Inl e))"

text \<open>
  What holds after the first \<open>k\<close> steps of \<open>search_all_sources\<close>: the database is
  untouched; without an exception the first \<open>k\<close> adapters were invoked, in order; with an
  exception the invocations stop at the adapter that raised it.
\<close>

definition run_inv :: "scraper \<Rightarrow> pystr \<Rightarrow> app \<Rightarrow> nat \<Rightarrow> app \<times> (exn + headline list) \<Rightarrow> bool" where
  "run_inv S q a k st \<longleftrightarrow>
     db (fst st) = db a \<and>
     (case snd st of
        Inr rs \<Rightarrow> invoked (fst st) = invoked a @ take k source_order
      | Inl e \<Rightarrow> (\<exists>j<k. invoked (fst st) = invoked a @ take (Suc j) source_order \<and>
                        raised_by S q e (source_order ! j)))"

section \<open>Whitespace, joining and stripping\<close>

lemma has_text_iff: "has_text s \<longleftrightarrow> (\<exists>c \<in> set s. \<not> py_isspace c)"
  by (simp add: has_text_def list_ex_iff)

lemma trimmed_has_text: "trimmed s \<Longrightarrow> has_text s"
  unfolding trimmed_def has_text_iff by (cases s) auto

lemma split_ws_words:
  "\<forall>c \<in> set w. \<not> py_isspace c \<Longrightarrow> x \<in> set (split_ws w s) \<Longrightarrow>
   x \<noteq> [] \<and> (\<forall>c \<in> set x. \<not> py_isspace c)"
proof (induction w s rule: split_ws.induct)
  case (1 w)
  then show ?case by (cases "w = []") simp_all
next
  case (2 w c cs)
  show ?case
  proof (cases "py_isspace c")
    case sp: True
    show ?thesis
    proof (cases "w = []")
      case True
      with sp "2.prems" have "x \<in> set (split_ws [] cs)" by simp
      with "2.IH"(1) [OF sp True] show ?thesis by simp
    next
      case False
      with sp "2.prems" have "x = w \<or> x \<in> set (split_ws [] cs)" by simp
      then show ?thesis
      proof
        assume "x = w"
        with False "2.prems"(1) show ?thesis by simp
      next
        assume "x \<in> set (split_ws [] cs)"
        with "2.IH"(2) [OF sp False] show ?thesis by simp
      qed
    qed
  next
    case False
    with "2.prems" have "x \<in> set (split_ws (w @ [c]) cs)" by simp
    moreover from False "2.prems"(1) have "\<forall>d \<in> set (w @ [c]). \<not> py_isspace d" by simp
    ultimately show ?thesis using "2.IH"(3) [OF False] by blast
  qed
qed

lemma split_ws_nonempty:
  "split_ws w s \<noteq> [] \<longleftrightarrow> w \<noteq> [] \<or> has_text s"
proof (induction w s rule: split_ws.induct)
  case (1 w)
  then show ?case by (simp add: has_text_iff)
next
  case (2 w c cs)
  show ?case
  proof (cases "py_isspace c")
    case sp: True
    then have h: "has_text (c # cs) = has_text cs" by (simp add: has_text_iff)
    show ?thesis
    proof (cases "w = []")
      case True
      with sp "2.IH"(1) h show ?thesis by simp
    next
      case False
      with sp show ?thesis by simp
    qed
  next
    case False
    then have "has_text (c # cs)" by (simp add: has_text_iff)
    with False "2.IH"(3) show ?thesis by simp
  qed
qed

lemma py_split_words: "x \<in> set (py_split s) \<Longrightarrow> trimmed x"
proof -
  assume "x \<in> set (py_split s)"
  then have "x \<in> set (split_ws [] s)" by (simp add: py_split_def)
  with split_ws_words [of "[]" x s] have ne: "x \<noteq> []" and ns: "\<forall>c \<in> set x. \<not> py_isspace c"
    by simp_all
  from ne have "hd x \<in> set x" "last x \<in> set x" by simp_all
  with ne ns show ?thesis unfolding trimmed_def by blast
qed


lemma trimmed_append: "trimmed a \<Longrightarrow> trimmed b \<Longrightarrow> trimmed (a @ m @ b)"
  unfolding trimmed_def by (simp add: hd_append)

lemma trimmed_py_join:
  "xs \<noteq> [] \<Longrightarrow> \<forall>x \<in> set xs. trimmed x \<Longrightarrow> trimmed (py_join sep xs)"
proof (induction sep xs rule: py_join.induct)
  case (1 sep)
  then show ?case by simp
next
  case (2 sep x)
  then show ?case by simp
next
  case (3 sep x y ys)
  then have "trimmed (py_join sep (y # ys))" and "trimmed x" by simp_all
  then have "trimmed (x @ sep @ py_join sep (y # ys))" by (rule trimmed_append [rotated])
  then show ?case by simp
qed

lemma set_py_join: "x \<in> set xs \<Longrightarrow> set x \<subseteq> set (py_join sep xs)"
proof (induction sep xs rule: py_join.induct)
  case (1 sep)
  then show ?case by simp
next
  case (2 sep y)
  then show ?case by simp
next
  case (3 sep a b bs)
  then show ?case by fastforce
qed

lemma has_text_py_join: "x \<in> set xs \<Longrightarrow> has_text x \<Longrightarrow> has_text (py_join sep xs)"
  using set_py_join [of x xs sep] unfolding has_text_iff by blast

lemma normalize_ws_trimmed: "normalize_ws s = [] \<or> trimmed (normalize_ws s)"
proof (cases "py_split s = []")
  case True
  then show ?thesis by (simp add: normalize_ws_def)
next
  case False
  then have "trimmed (py_join [32] (py_split s))"
    by (rule trimmed_py_join) (simp add: py_split_words)
  then show ?thesis by (simp add: normalize_ws_def)
qed

lemma normalize_ws_nonempty: "normalize_ws s \<noteq> [] \<longleftrightarrow> has_text s"
proof (cases "py_split s = []")
  case True
  then have "\<not> has_text s" using split_ws_nonempty [of "[]" s] by (simp add: py_split_def)
  with True show ?thesis by (simp add: normalize_ws_def)
next
  case False
  then have "has_text s" using split_ws_nonempty [of "[]" s] by (simp add: py_split_def)
  moreover from False have "trimmed (py_join [32] (py_split s))"
    by (rule trimmed_py_join) (simp add: py_split_words)
  ultimately show ?thesis by (simp add: normalize_ws_def trimmed_def)
qed

lemma py_strip_trimmed: "trimmed s \<Longrightarrow> py_strip s = s"
proof -
  assume t: "trimmed s"
  then obtain x xs where sx: "s = x # xs" and nx: "\<not> py_isspace x"
    unfolding trimmed_def by (cases s) simp_all
  from t obtain y ys where sy: "s = ys @ [y]" and ny: "\<not> py_isspace y"
    unfolding trimmed_def by (cases s rule: rev_cases) simp_all
  from sx nx have "dropWhile py_isspace s = s" by simp
  moreover from sy ny have "dropWhile py_isspace (rev s) = rev s" by simp
  ultimately show ?thesis by (simp add: py_strip_def)
qed

lemma dropWhile_snoc_keep:
  "\<not> P x \<Longrightarrow> dropWhile P (ys @ [x]) \<noteq> [] \<and> last (dropWhile P (ys @ [x])) = x"
  by (induction ys) simp_all

lemma py_strip_split:
  "(py_strip s = [] \<and> \<not> has_text s) \<or> (trimmed (py_strip s) \<and> has_text s)"
proof -
  define a where "a = dropWhile py_isspace s"
  define b where "b = dropWhile py_isspace (rev a)"
  have ps: "py_strip s = rev b" by (simp add: py_strip_def a_def b_def)
  have ht: "has_text s \<longleftrightarrow> a \<noteq> []"
    unfolding has_text_iff a_def by (simp add: dropWhile_eq_Nil_conv)
  show ?thesis
  proof (cases a)
    case Nil
    then have "b = []" by (simp add: b_def)
    with ps ht Nil show ?thesis by simp
  next
    case (Cons x as)
    have "\<not> py_isspace (hd (dropWhile py_isspace s))"
      by (rule hd_dropWhile) (use Cons a_def in simp)
    with Cons have nx: "\<not> py_isspace x" by (simp add: a_def [symmetric])
    have "b = dropWhile py_isspace (rev as @ [x])" by (simp add: b_def Cons)
    with nx dropWhile_snoc_keep [of py_isspace x "rev as"]
    have bne: "b \<noteq> []" and bl: "last b = x" by simp_all
    have "\<not> py_isspace (hd (dropWhile py_isspace (rev a)))"
      by (rule hd_dropWhile) (use bne b_def in simp)
    then have hb: "\<not> py_isspace (hd b)" by (simp add: b_def [symmetric])
    from bne bl nx hb have "trimmed (rev b)"
      unfolding trimmed_def by (simp add: hd_rev last_rev)
    with ps ht Cons show ?thesis by simp
  qed
qed

lemma py_strip_nonempty: "py_strip s \<noteq> [] \<longleftrightarrow> has_text s"
  using py_strip_split [of s] unfolding trimmed_def by blast

lemma py_strip_cases: "py_strip s = [] \<or> trimmed (py_strip s)"
  using py_strip_split [of s] by blast

lemma split_sep_nonempty: "split_sep w s \<noteq> []"
  by (induction w s rule: split_sep.induct) auto

lemma split_sep_last:
  "s \<noteq> [] \<Longrightarrow> \<not> py_isspace (last s) \<Longrightarrow>
   last (split_sep w s) \<noteq> [] \<and> last (last (split_sep w s)) = last s"
proof (induction w s rule: split_sep.induct)
  case (1 w)
  then show ?case by simp
next
  case (2 w c)
  then show ?case by simp
next
  case (3 w c d cs)
  show ?case
  proof (cases "c = 46 \<and> d = 32")
    case True
    have sp: "py_isspace 32" by (simp add: py_isspace_def)
    from True "3.prems" sp have ne: "cs \<noteq> []" by (cases cs) auto
    then have l: "last (c # d # cs) = last cs" by simp
    from "3.prems" l have "\<not> py_isspace (last cs)" by simp
    from "3.IH"(1) [OF True ne this]
    have "last (split_sep [] cs) \<noteq> [] \<and> last (last (split_sep [] cs)) = last cs" .
    with True l show ?thesis by (simp add: split_sep_nonempty)
  next
    case False
    have l: "last (c # d # cs) = last (d # cs)" by simp
    from "3.prems" l have "\<not> py_isspace (last (d # cs))" by simp
    from "3.IH"(2) [OF False _ this]
    have ih: "last (split_sep (w @ [c]) (d # cs)) \<noteq> [] \<and> last (last (split_sep (w @ [c]) (d # cs))) = last (d # cs)" by simp
    from False have "split_sep w (c # d # cs) = split_sep (w @ [c]) (d # cs)"
      by (simp only: split_sep.simps if_False)
    with ih l show ?thesis by metis
  qed
qed


lemma chunk_loop_inv:
  "py_strip ` set pieces \<subseteq> S \<Longrightarrow> loop_inv m S (chunks, current) \<Longrightarrow>
   loop_inv m S (chunk_loop m pieces chunks current)"
proof (induction pieces arbitrary: chunks current)
  case Nil
  then show ?case by simp
next
  case (Cons piece rest)
  define sentence where "sentence = py_strip piece"
  from Cons.prems(1) have sub: "py_strip ` set rest \<subseteq> S" and inS: "sentence \<in> S"
    by (auto simp: sentence_def)
  show ?case
  proof (cases "sentence = []")
    case True
    then have "chunk_loop m (piece # rest) chunks current = chunk_loop m rest chunks current"
      by (simp add: sentence_def)
    with Cons.IH [OF sub Cons.prems(2)] show ?thesis by simp
  next
    case False
    with py_strip_cases [of piece] have ts: "trimmed sentence" by (simp add: sentence_def)
    from Cons.prems(2) have cur: "\<forall>s \<in> set current. trimmed s"
      and chs: "\<forall>c \<in> set chunks. chunk_ok m S c"
      and cj: "current = [] \<or> chunk_ok m S (py_join [46, 32] current)"
      by (simp_all add: loop_inv_def)
    from cur ts have "trimmed (py_join [46, 32] (current @ [sentence]))"
      by (intro trimmed_py_join) auto
    then have cand: "py_strip (py_join [46, 32] (current @ [sentence])) = py_join [46, 32] (current @ [sentence])"
      and tc: "trimmed (py_join [46, 32] (current @ [sentence]))"
      by (simp_all add: py_strip_trimmed)
    show ?thesis
    proof (cases "py_len (py_join [46, 32] (current @ [sentence])) \<le> m")
      case fits: True
      with False cand
      have eq: "chunk_loop m (piece # rest) chunks current = chunk_loop m rest chunks (current @ [sentence])"
        by (simp add: sentence_def Let_def)
      from chs cur ts tc fits have "loop_inv m S (chunks, current @ [sentence])"
        by (simp add: loop_inv_def chunk_ok_def)
      with Cons.IH [OF sub] eq show ?thesis by simp
    next
      case over: False
      define chunks' where "chunks' = (if current \<noteq> [] then chunks @ [py_strip (py_join [46, 32] current)] else chunks)"
      from False cand over
      have eq: "chunk_loop m (piece # rest) chunks current = chunk_loop m rest chunks' [sentence]"
        by (simp add: sentence_def Let_def chunks'_def)
      have c': "\<forall>c \<in> set chunks'. chunk_ok m S c"
      proof (cases "current = []")
        case True
        with chs show ?thesis by (simp add: chunks'_def)
      next
        case ne: False
        with cj have ok: "chunk_ok m S (py_join [46, 32] current)" by simp
        then have "py_strip (py_join [46, 32] current) = py_join [46, 32] current"
          by (simp add: chunk_ok_def py_strip_trimmed)
        with ok chs ne show ?thesis by (simp add: chunks'_def)
      qed
      have "chunk_ok m S sentence"
      proof (cases "py_len sentence \<le> m")
        case True
        with ts show ?thesis by (simp add: chunk_ok_def)
      next
        case False
        with ts inS show ?thesis by (simp add: chunk_ok_def)
      qed
      with c' ts have "loop_inv m S (chunks', [sentence])"
        by (simp add: loop_inv_def)
      with Cons.IH [OF sub] eq show ?thesis by simp
    qed
  qed
qed

lemma chunk_loop_current:
  "current \<noteq> [] \<or> (\<exists>p \<in> set pieces. py_strip p \<noteq> []) \<Longrightarrow>
   snd (chunk_loop m pieces chunks current) \<noteq> []"
proof (induction pieces arbitrary: chunks current)
  case Nil
  then show ?case by simp
next
  case (Cons piece rest)
  show ?case
  proof (cases "py_strip piece = []")
    case True
    with Cons.prems have "current \<noteq> [] \<or> (\<exists>p \<in> set rest. py_strip p \<noteq> [])" by auto
    from Cons.IH [OF this] True show ?thesis by simp
  next
    case False
    then show ?thesis by (simp add: Let_def Cons.IH)
  qed
qed

lemma chunk_text_ok:
  assumes "c \<in> set (chunk_text T m)"
  shows "(has_text T \<longrightarrow> trimmed c) \<and> (py_len c \<le> m \<or> (c \<in> set (sentences_of T) \<and> py_len c > m))"
proof (cases "py_len (normalize_ws T) \<le> m")
  case True
  with assms have c: "c = normalize_ws T" by (simp add: chunk_text_def)
  with normalize_ws_trimmed [of T] normalize_ws_nonempty [of T] True show ?thesis by auto
next
  case False
  define r where "r = chunk_loop m (split_sentences (normalize_ws T)) [] []"
  have "loop_inv m (set (sentences_of T)) ([], [])" by (simp add: loop_inv_def)
  then have inv: "loop_inv m (set (sentences_of T)) r"
    unfolding r_def by (intro chunk_loop_inv) (simp_all add: sentences_of_def)
  have ct: "chunk_text T m = (if snd r \<noteq> [] then fst r @ [py_strip (py_join [46, 32] (snd r))] else fst r)"
    using False by (simp add: chunk_text_def r_def split: prod.split)
  have "chunk_ok m (set (sentences_of T)) c"
  proof (cases "snd r = []")
    case True
    with ct assms inv show ?thesis by (simp add: loop_inv_def)
  next
    case ne: False
    with inv have ok: "chunk_ok m (set (sentences_of T)) (py_join [46, 32] (snd r))"
      by (simp add: loop_inv_def)
    then have "py_strip (py_join [46, 32] (snd r)) = py_join [46, 32] (snd r)"
      by (simp add: chunk_ok_def py_strip_trimmed)
    with ct assms inv ok ne show ?thesis by (auto simp: loop_inv_def)
  qed
  then show ?thesis by (simp add: chunk_ok_def)
qed

lemma chunk_text_nonempty:
  assumes "has_text T"
  shows "chunk_text T m \<noteq> []"
proof (cases "py_len (normalize_ws T) \<le> m")
  case True
  then show ?thesis by (simp add: chunk_text_def)
next
  case False
  define n where "n = normalize_ws T"
  from assms normalize_ws_nonempty [of T] normalize_ws_trimmed [of T]
  have tn: "trimmed n" by (simp add: n_def)
  then have "last (split_sep [] n) \<noteq> [] \<and> last (last (split_sep [] n)) = last n"
    by (intro split_sep_last) (simp_all add: trimmed_def)
  with tn have "has_text (last (split_sep [] n))"
    unfolding has_text_iff trimmed_def by (metis last_in_set)
  then have "py_strip (last (split_sep [] n)) \<noteq> []" by (simp add: py_strip_nonempty)
  moreover have "last (split_sep [] n) \<in> set (split_sentences n)"
    by (simp add: split_sentences_def split_sep_nonempty)
  ultimately have "\<exists>p \<in> set (split_sentences n). py_strip p \<noteq> []" by blast
  then have "snd (chunk_loop m (split_sentences n) [] []) \<noteq> []"
    by (intro chunk_loop_current) simp
  with False show ?thesis
    by (auto simp: chunk_text_def n_def split: prod.split)
qed

section \<open>Sample evaluations\<close>

lemma sample_chunks:
  "chunk_text (str ''aa. bb. cc. dddddddd. e'') 6 = [str ''aa. bb'', str ''cc'', str ''dddddddd'', str ''e'']"
  by (simp add: chunk_text_def str_def normalize_ws_def py_split_def py_isspace_def
        split_sentences_def py_strip_def py_len_def)

lemma sample_has_text: "has_text (str ''aa. bb. cc. dddddddd. e'')"
  by (simp add: has_text_def str_def py_isspace_def)

lemma sample_normalize: "normalize_ws (str ''a   b '') = str ''a b''"
  by (simp add: str_def normalize_ws_def py_split_def py_isspace_def)

section \<open>The chunker\<close>

text \<open>
  C4, amended.  Every chunk of \<open>chunk(T, maxChars)\<close> is at most \<open>maxChars\<close> long unless it
  is a single sentence that is itself longer than \<open>maxChars\<close>; every chunk is non-empty
  provided \<open>T\<close> has a code point that is not whitespace; and when the normalised text is at
  most \<open>maxChars\<close> long the result is the one-element list holding it.
\<close>

theorem chunk_text_bounds:
  "(\<forall>c \<in> set (chunk_text T m).
      (has_text T \<longrightarrow> c \<noteq> []) \<and>
      (py_len c \<le> m \<or> (c \<in> set (sentences_of T) \<and> m < py_len c))) \<and>
   (py_len (normalize_ws T) \<le> m \<longrightarrow> chunk_text T m = [normalize_ws T])"
proof -
  have "\<And>c. c \<in> set (chunk_text T m) \<Longrightarrow>
      (has_text T \<longrightarrow> c \<noteq> []) \<and> (py_len c \<le> m \<or> (c \<in> set (sentences_of T) \<and> m < py_len c))"
    using chunk_text_ok [of _ T m] by (auto simp: trimmed_def)
  moreover have "py_len (normalize_ws T) \<le> m \<longrightarrow> chunk_text T m = [normalize_ws T]"
    by (simp add: chunk_text_def)
  ultimately show ?thesis by blast
qed

theorem chunk_text_bounds_witness:
  "has_text (str ''aa. bb. cc. dddddddd. e'') \<and>
   str ''dddddddd'' \<in> set (chunk_text (str ''aa. bb. cc. dddddddd. e'') 6) \<and>
   str ''dddddddd'' \<noteq> [] \<and>
   str ''dddddddd'' \<in> set (sentences_of (str ''aa. bb. cc. dddddddd. e'')) \<and>
   6 < py_len (str ''dddddddd'') \<and>
   py_len (normalize_ws (str ''a   b '')) \<le> 700 \<and>
   chunk_text (str ''a   b '') 700 = [str ''a b'']"
proof -
  have le: "py_len (normalize_ws (str ''a   b '')) \<le> 700"
    by (simp add: sample_normalize) (simp add: str_def py_len_def)
  from chunk_text_bounds [of "str ''a   b ''" 700] le
  have one: "chunk_text (str ''a   b '') 700 = [str ''a b'']"
    by (simp add: sample_normalize)
  have mem: "str ''dddddddd'' \<in> set (chunk_text (str ''aa. bb. cc. dddddddd. e'') 6)"
    by (simp add: sample_chunks)
  have long: "\<not> py_len (str ''dddddddd'') \<le> 6"
    by (simp add: str_def py_len_def)
  from chunk_text_bounds [of "str ''aa. bb. cc. dddddddd. e''" 6] mem sample_has_text long
  have "str ''dddddddd'' \<noteq> [] \<and>
        str ''dddddddd'' \<in> set (sentences_of (str ''aa. bb. cc. dddddddd. e'')) \<and>
        6 < py_len (str ''dddddddd'')"
    by blast
  with one le mem sample_has_text show ?thesis by blast
qed

text \<open>
  C4 as stated fails: for the empty text (and any text of whitespace only) with a bound
  that is not negative, the early return yields one chunk, the empty string.
\<close>

theorem chunk_text_empty_chunk: "chunk_text [] 700 = [[]] \<and> \<not> (\<forall>c \<in> set (chunk_text [] 700). c \<noteq> [])"
  by (simp add: chunk_text_def normalize_ws_def py_split_def py_len_def)

section \<open>The summariser on short texts\<close>

text \<open>
  C3.  When the whitespace-normalised form of \<open>T\<close> has length at most 400,
  \<open>summarize(T)\<close> returns that normalised form, whatever the engine and the globals are.
\<close>

theorem summarize_text_short:
  "py_len (normalize_ws T) \<le> 400 \<Longrightarrow> snd (summarize_text P w T) = Inr (normalize_ws T)"
  by (simp add: summarize_text_def normalize_ws_def py_split_def)

theorem summarize_text_short_witness:
  "py_len (normalize_ws (str ''a   b '')) \<le> 400 \<and>
   snd (summarize_text (Inr blank_engine) world0 (str ''a   b '')) = Inr (str ''a b'')"
proof -
  have le: "py_len (normalize_ws (str ''a   b '')) \<le> 400"
    by (simp add: sample_normalize) (simp add: str_def py_len_def)
  from summarize_text_short [OF le, of "Inr blank_engine" world0] le
  show ?thesis by (simp add: sample_normalize)
qed

text \<open>
  C10.  When the whitespace-normalised form of the input has length at most 400 (the empty
  string included), \<open>summarize\<close> leaves the globals as they were: the engine handle is
  not set, no pipeline is constructed, no text is handed to an engine, nothing is logged.
\<close>

theorem summarize_text_short_frame:
  "py_len (normalize_ws T) \<le> 400 \<Longrightarrow> fst (summarize_text P w T) = w"
  by (simp add: summarize_text_def)

theorem summarize_text_short_frame_witness:
  "py_len (normalize_ws (str ''a   b '')) \<le> 400 \<and>
   fst (summarize_text (Inr blank_engine) world0 (str ''a   b '')) = world0 \<and>
   summarizer world0 = None \<and> loads world0 = 0 \<and> engine_inputs world0 = []"
proof -
  have le: "py_len (normalize_ws (str ''a   b '')) \<le> 400"
    by (simp add: sample_normalize) (simp add: str_def py_len_def)
  from summarize_text_short_frame [OF le, of "Inr blank_engine" world0] le
  show ?thesis by (simp add: world0_def)
qed

section \<open>The document fetcher\<close>



section \<open>The list-recent endpoint\<close>





section \<open>Persistence\<close>

lemma save_headline_ok:
  assumes "map_of d ''url'' = Some (Some u)" and "db_fault E (executed s) = None"
  shows "save_headline E d (w, s) =
           (w, \<lparr>rows = filter (\<lambda>r. r_url r \<noteq> Some u) (rows s) @ [row_of E d s],
                seq = seq s + 1, executed = executed s + 1\<rparr>)"
proof -
  from assms(1) have "d \<noteq> []" by auto
  with assms show ?thesis
    by (simp add: save_headline_def insert_or_replace_def row_of_def dict_get_def Let_def)
qed

lemma row_of_url: "map_of d ''url'' = Some (Some u) \<Longrightarrow> r_url (row_of E d s) = Some u"
  by (simp add: row_of_def dict_get_def)

text \<open>
  C6.  Persisting two records with the same URL, one after the other (the same record twice
  in particular), with both statements accepted by the database, leaves exactly one row for
  that URL; it holds the field values of the second record, and the rows of other URLs are
  as before.
\<close>

theorem save_headline_upsert:
  assumes "map_of d1 ''url'' = Some (Some u)" and "map_of d2 ''url'' = Some (Some u)"
    and "db_fault E (executed s) = None" and "db_fault E (executed s + 1) = None"
  shows "rows_for u (snd (save_headline E d2 (save_headline E d1 (w, s)))) =
           [\<lparr>r_id = seq s + 2,
             r_source = dict_get_default d2 ''source'' (str ''unknown''),
             r_url = Some u,
             r_picture = dict_get d2 ''picture'',
             r_heading = dict_get d2 ''heading'',
             r_blog = dict_get d2 ''blog'',
             r_timestamp = db_clock E (executed s + 1)\<rparr>] \<and>
         filter (\<lambda>r. r_url r \<noteq> Some u) (rows (snd (save_headline E d2 (save_headline E d1 (w, s))))) =
           filter (\<lambda>r. r_url r \<noteq> Some u) (rows s)"
proof -
  define s1 where "s1 = \<lparr>rows = filter (\<lambda>r. r_url r \<noteq> Some u) (rows s) @ [row_of E d1 s],
                seq = seq s + 1, executed = executed s + 1\<rparr>"
  have 1: "save_headline E d1 (w, s) = (w, s1)"
    unfolding s1_def using assms(1,3) by (rule save_headline_ok)
  have f: "db_fault E (executed s1) = None" using assms(4) by (simp add: s1_def)
  have 2: "save_headline E d2 (w, s1) =
           (w, \<lparr>rows = filter (\<lambda>r. r_url r \<noteq> Some u) (rows s1) @ [row_of E d2 s1],
                seq = seq s1 + 1, executed = executed s1 + 1\<rparr>)"
    using assms(2) f by (rule save_headline_ok)
  have k: "filter (\<lambda>r. r_url r \<noteq> Some u) (rows s1) = filter (\<lambda>r. r_url r \<noteq> Some u) (rows s)"
    using row_of_url [OF assms(1), of E s] by (simp add: s1_def)
  have r2: "row_of E d2 s1 = \<lparr>r_id = seq s + 2,
             r_source = dict_get_default d2 ''source'' (str ''unknown''),
             r_url = Some u,
             r_picture = dict_get d2 ''picture'',
             r_heading = dict_get d2 ''heading'',
             r_blog = dict_get d2 ''blog'',
             r_timestamp = db_clock E (executed s + 1)\<rparr>"
    using assms(2) by (simp add: row_of_def s1_def dict_get_def)
  have "filter (\<lambda>r. r_url r = Some u) (filter (\<lambda>r. r_url r \<noteq> Some u) (rows s)) = []"
    by (simp add: filter_empty_conv)
  with 1 2 k r2 show ?thesis
    by (simp add: rows_for_def)
qed

theorem save_headline_upsert_witness:
  "map_of (sample_headline (str ''old'')) ''url'' = Some (Some (str ''https://www.bbc.com/news/1'')) \<and>
   map_of (sample_headline (str ''new'')) ''url'' = Some (Some (str ''https://www.bbc.com/news/1'')) \<and>
   db_fault sample_env (executed store0) = None \<and>
   db_fault sample_env (executed store0 + 1) = None \<and>
   rows_for (str ''https://www.bbc.com/news/1'')
     (snd (save_headline sample_env (sample_headline (str ''new''))
            (save_headline sample_env (sample_headline (str ''old'')) (world0, store0)))) =
     [\<lparr>r_id = 2, r_source = Some (str ''bbc''), r_url = Some (str ''https://www.bbc.com/news/1''),
       r_picture = None, r_heading = Some (str ''Title''), r_blog = Some (str ''new''),
       r_timestamp = 1001\<rparr>]"
proof -
  have a: "map_of (sample_headline (str ''old'')) ''url'' = Some (Some (str ''https://www.bbc.com/news/1''))"
    and b: "map_of (sample_headline (str ''new'')) ''url'' = Some (Some (str ''https://www.bbc.com/news/1''))"
    by (simp_all add: sample_headline_def)
  have c: "db_fault sample_env (executed store0) = None"
    and d: "db_fault sample_env (executed store0 + 1) = None"
    by (simp_all add: sample_env_def)
  from save_headline_upsert [OF a b c d, of world0]
  have "rows_for (str ''https://www.bbc.com/news/1'')
     (snd (save_headline sample_env (sample_headline (str ''new''))
            (save_headline sample_env (sample_headline (str ''old'')) (world0, store0)))) =
     [\<lparr>r_id = 2, r_source = Some (str ''bbc''), r_url = Some (str ''https://www.bbc.com/news/1''),
       r_picture = None, r_heading = Some (str ''Title''), r_blog = Some (str ''new''),
       r_timestamp = 1001\<rparr>]"
    by (simp add: store0_def sample_env_def sample_headline_def dict_get_def dict_get_default_def)
  with a b c d show ?thesis by blast
qed

section \<open>Article extraction on short bodies\<close>






section \<open>The orchestrator when an adapter raises\<close>

lemma length_source_order: "length source_order = 5"
  by (simp add: source_order_def)

lemma extend_with_raised: "extend_with label name f q (a0, Inl e) = (a0, Inl e)"
  by (simp add: extend_with_def)

lemma run_inv_step:
  assumes "run_inv S q a k st" and "k < 5" and "name = source_order ! k" and "f = adapter_of S name"
  shows "run_inv S q a (Suc k) (extend_with label name f q st)"
proof (cases st)
  case (Pair a0 r0)
  show ?thesis
  proof (cases r0)
    case (Inl e)
    with Pair assms(1) obtain j where j: "j < k" "invoked a0 = invoked a @ take (Suc j) source_order"
      "raised_by S q e (source_order ! j)" and d: "db a0 = db a"
      unfolding run_inv_def by auto
    have "\<exists>i<Suc k. invoked a0 = invoked a @ take (Suc i) source_order \<and>
                    raised_by S q e (source_order ! i)"
      using j by (intro exI [of _ j]) simp
    with d have "run_inv S q a (Suc k) (a0, Inl e)"
      by (simp add: run_inv_def)
    with Pair Inl show ?thesis by (simp add: extend_with_raised)
  next
    case (Inr rs)
    with Pair assms(1) have inv: "invoked a0 = invoked a @ take k source_order" and d: "db a0 = db a"
      by (simp_all add: run_inv_def)
    define w0 where "w0 = emit INFO (SearchingSource label) (globals a0)"
    obtain w r where fr: "f q w0 = (w, r)" by (cases "f q w0")
    define a1 where "a1 = a0\<lparr>globals := w, invoked := invoked a0 @ [name]\<rparr>"
    have tk: "take (Suc k) source_order = take k source_order @ [name]"
      using assms(2,3) take_Suc_conv_app_nth [of k source_order] by (simp add: length_source_order)
    have a1i: "invoked a1 = invoked a @ take (Suc k) source_order" and a1d: "db a1 = db a"
      by (simp_all add: a1_def inv d tk)
    have call: "call_adapter name f q (emit_app INFO (SearchingSource label) a0) = (a1, r)"
      by (simp add: call_adapter_def emit_app_def fr [unfolded w0_def] a1_def)
    show ?thesis
    proof (cases r)
      case (Inl e)
      from fr Inl assms(4) have "adapter_of S name q w0 = (w, Inl e)" by simp
      then have "raised_by S q e (source_order ! k)"
        unfolding raised_by_def assms(3) by blast
      then have "\<exists>i<Suc k. invoked a1 = invoked a @ take (Suc i) source_order \<and>
                    raised_by S q e (source_order ! i)"
        using a1i by (intro exI [of _ k]) simp
      with a1d have "run_inv S q a (Suc k) (a1, Inl e)"
        by (simp add: run_inv_def)
      moreover have "extend_with label name f q (a0, Inr rs) = (a1, Inl e)"
        by (simp add: extend_with_def call Inl)
      ultimately show ?thesis using Pair \<open>r0 = Inr rs\<close> by simp
    next
      case (Inr rs')
      from a1i a1d have "run_inv S q a (Suc k) (a1, Inr (rs @ rs'))"
        unfolding run_inv_def by simp
      moreover have "extend_with label name f q (a0, Inr rs) = (a1, Inr (rs @ rs'))"
        by (simp add: extend_with_def call Inr)
      ultimately show ?thesis using Pair \<open>r0 = Inr rs\<close> by simp
    qed
  qed
qed

lemma search_all_sources_inv:
  "\<exists>st. run_inv S q a 5 st \<and>
     search_all_sources S q a =
       (case st of (a1, Inl e) \<Rightarrow> (a1, Inl e)
        | (a1, Inr rs) \<Rightarrow> (emit_app INFO (TotalResults (length rs)) a1, Inr rs))"
proof -
  define st0 :: "app \<times> (exn + headline list)" where "st0 = (emit_app INFO (SearchingAllSources q) a, Inr [])"
  define st1 where "st1 = extend_with (str ''Geo'') ''geo'' (search_geo_news S) q st0"
  define st2 where "st2 = extend_with (str ''BBC'') ''bbc'' (search_bbc_news S) q st1"
  define st3 where "st3 = extend_with (str ''ARY'') ''ary'' (search_ary_news S) q st2"
  define st4 where "st4 = extend_with (str ''Samaa'') ''samaa'' (search_samaa_news S) q st3"
  define st5 where "st5 = extend_with (str ''Dawn'') ''dawn'' (search_dawn_news S) q st4"
  have 0: "run_inv S q a 0 st0" by (simp add: run_inv_def st0_def emit_app_def)
  have 1: "run_inv S q a (Suc 0) st1" unfolding st1_def
    by (rule run_inv_step [OF 0]) (simp_all add: source_order_def adapter_of_def)
  have 2: "run_inv S q a (Suc (Suc 0)) st2" unfolding st2_def
    by (rule run_inv_step [OF 1]) (simp_all add: source_order_def adapter_of_def)
  have 3: "run_inv S q a (Suc (Suc (Suc 0))) st3" unfolding st3_def
    by (rule run_inv_step [OF 2]) (simp_all add: source_order_def adapter_of_def)
  have 4: "run_inv S q a (Suc (Suc (Suc (Suc 0)))) st4" unfolding st4_def
    by (rule run_inv_step [OF 3]) (simp_all add: source_order_def adapter_of_def)
  have 5: "run_inv S q a (Suc (Suc (Suc (Suc (Suc 0))))) st5" unfolding st5_def
    by (rule run_inv_step [OF 4]) (simp_all add: source_order_def adapter_of_def)
  have n: "Suc (Suc (Suc (Suc (Suc 0)))) = 5" by simp
  have "search_all_sources S q a =
       (case st5 of (a1, Inl e) \<Rightarrow> (a1, Inl e)
        | (a1, Inr rs) \<Rightarrow> (emit_app INFO (TotalResults (length rs)) a1, Inr rs))"
    by (simp add: search_all_sources_def Let_def st0_def st1_def st2_def st3_def st4_def st5_def)
  with 5 show ?thesis unfolding n by (intro exI [of _ st5]) simp
qed

lemma dispatch_all: "dispatch S (str ''all'') q a = Some (search_all_sources S q a)"
  by (simp add: dispatch_def str_def)

lemma failing_run:
  "search_all_sources failing_scraper q app0 =
     (app0\<lparr>globals := emit INFO (SearchingSource (str ''BBC''))
                            (emit INFO (SearchingSource (str ''Geo''))
                               (emit INFO (SearchingAllSources q) world0)),
           invoked := [''geo'', ''bbc'']\<rparr>,
      Inl (Exception (str ''parser error'')))"
  by (simp add: search_all_sources_def Let_def extend_with_def call_adapter_def emit_app_def
        failing_scraper_def app0_def)

lemma sample_query: "py_strip (args_get [(''query'', str ''floods'')] ''query'' []) = str ''floods''"
  by (simp add: args_get_def py_strip_def str_def py_isspace_def)

lemma sample_default_source:
  "str_lower sample_env (args_get [(''query'', str ''floods'')] ''source'' (str ''all'')) = str ''all''"
  by (simp add: args_get_def sample_env_def ascii_lower_def str_def)

text \<open>
  C1, amended.  When the adapters before it return and one adapter's search raises during
  search-all, the exception is not caught there: search-all ends with that exception (one
  conjunct for each of the five positions), the adapters after the one that raised are not
  invoked, the results collected so far are dropped and the database is untouched.  The
  live-search endpoint, called with that query and the selector "all", catches the
  exception, logs it and answers with status 500 and the exception's message.
\<close>

theorem search_all_sources_raise:
  "(search_geo_news S q
        (emit INFO (SearchingSource (str ''Geo'')) (emit INFO (SearchingAllSources q) (globals a))) = (w1, Inl e) \<longrightarrow>
      search_all_sources S q a = (a\<lparr>globals := w1, invoked := invoked a @ [''geo'']\<rparr>, Inl e)) \<and>
   (search_geo_news S q
        (emit INFO (SearchingSource (str ''Geo'')) (emit INFO (SearchingAllSources q) (globals a))) = (w1, Inr r1) \<and>
    search_bbc_news S q (emit INFO (SearchingSource (str ''BBC'')) w1) = (w2, Inl e) \<longrightarrow>
      search_all_sources S q a = (a\<lparr>globals := w2, invoked := invoked a @ [''geo'', ''bbc'']\<rparr>, Inl e)) \<and>
   (search_geo_news S q
        (emit INFO (SearchingSource (str ''Geo'')) (emit INFO (SearchingAllSources q) (globals a))) = (w1, Inr r1) \<and>
    search_bbc_news S q (emit INFO (SearchingSource (str ''BBC'')) w1) = (w2, Inr r2) \<and>
    search_ary_news S q (emit INFO (SearchingSource (str ''ARY'')) w2) = (w3, Inl e) \<longrightarrow>
      search_all_sources S q a = (a\<lparr>globals := w3, invoked := invoked a @ [''geo'', ''bbc'', ''ary'']\<rparr>, Inl e)) \<and>
   (search_geo_news S q
        (emit INFO (SearchingSource (str ''Geo'')) (emit INFO (SearchingAllSources q) (globals a))) = (w1, Inr r1) \<and>
    search_bbc_news S q (emit INFO (SearchingSource (str ''BBC'')) w1) = (w2, Inr r2) \<and>
    search_ary_news S q (emit INFO (SearchingSource (str ''ARY'')) w2) = (w3, Inr r3) \<and>
    search_samaa_news S q (emit INFO (SearchingSource (str ''Samaa'')) w3) = (w4, Inl e) \<longrightarrow>
      search_all_sources S q a = (a\<lparr>globals := w4, invoked := invoked a @ [''geo'', ''bbc'', ''ary'', ''samaa'']\<rparr>, Inl e)) \<and>
   (search_geo_news S q
        (emit INFO (SearchingSource (str ''Geo'')) (emit INFO (SearchingAllSources q) (globals a))) = (w1, Inr r1) \<and>
    search_bbc_news S q (emit INFO (SearchingSource (str ''BBC'')) w1) = (w2, Inr r2) \<and>
    search_ary_news S q (emit INFO (SearchingSource (str ''ARY'')) w2) = (w3, Inr r3) \<and>
    search_samaa_news S q (emit INFO (SearchingSource (str ''Samaa'')) w3) = (w4, Inr r4) \<and>
    search_dawn_news S q (emit INFO (SearchingSource (str ''Dawn'')) w4) = (w5, Inl e) \<longrightarrow>
      search_all_sources S q a = (a\<lparr>globals := w5, invoked := invoked a @ [''geo'', ''bbc'', ''ary'', ''samaa'', ''dawn'']\<rparr>, Inl e)) \<and>
   (search_all_sources S q a = (a1, Inl e) \<longrightarrow>
      (\<exists>k<5. invoked a1 = invoked a @ take (Suc k) source_order \<and>
              raised_by S q e (source_order ! k)) \<and>
      db a1 = db a \<and>
      (py_strip (args_get as ''query'' []) = q \<and> q \<noteq> [] \<and>
       str_lower E (args_get as ''source'' (str ''all'')) = str ''all'' \<longrightarrow>
         search_news E S as a =
           (emit_app ERROR (EndpointError e) a1, (500, ErrorBody (exn_text e)))))"
proof -
  have f1: "search_geo_news S q
          (emit INFO (SearchingSource (str ''Geo'')) (emit INFO (SearchingAllSources q) (globals a))) = (w1, Inl e) \<longrightarrow>
        search_all_sources S q a = (a\<lparr>globals := w1, invoked := invoked a @ [''geo'']\<rparr>, Inl e)"
    by (simp add: search_all_sources_def Let_def extend_with_def call_adapter_def emit_app_def)
  have f2: "search_geo_news S q
          (emit INFO (SearchingSource (str ''Geo'')) (emit INFO (SearchingAllSources q) (globals a))) = (w1, Inr r1) \<and>
    search_bbc_news S q (emit INFO (SearchingSource (str ''BBC'')) w1) = (w2, Inl e) \<longrightarrow>
        search_all_sources S q a = (a\<lparr>globals := w2, invoked := invoked a @ [''geo'', ''bbc'']\<rparr>, Inl e)"
    by (simp add: search_all_sources_def Let_def extend_with_def call_adapter_def emit_app_def)
  have f3: "search_geo_news S q
          (emit INFO (SearchingSource (str ''Geo'')) (emit INFO (SearchingAllSources q) (globals a))) = (w1, Inr r1) \<and>
    search_bbc_news S q (emit INFO (SearchingSource (str ''BBC'')) w1) = (w2, Inr r2) \<and>
    search_ary_news S q (emit INFO (SearchingSource (str ''ARY'')) w2) = (w3, Inl e) \<longrightarrow>
        search_all_sources S q a = (a\<lparr>globals := w3, invoked := invoked a @ [''geo'', ''bbc'', ''ary'']\<rparr>, Inl e)"
    by (simp add: search_all_sources_def Let_def extend_with_def call_adapter_def emit_app_def)
  have f4: "search_geo_news S q
          (emit INFO (SearchingSource (str ''Geo'')) (emit INFO (SearchingAllSources q) (globals a))) = (w1, Inr r1) \<and>
    search_bbc_news S q (emit INFO (SearchingSource (str ''BBC'')) w1) = (w2, Inr r2) \<and>
    search_ary_news S q (emit INFO (SearchingSource (str ''ARY'')) w2) = (w3, Inr r3) \<and>
    search_samaa_news S q (emit INFO (SearchingSource (str ''Samaa'')) w3) = (w4, Inl e) \<longrightarrow>
        search_all_sources S q a = (a\<lparr>globals := w4, invoked := invoked a @ [''geo'', ''bbc'', ''ary'', ''samaa'']\<rparr>, Inl e)"
    by (simp add: search_all_sources_def Let_def extend_with_def call_adapter_def emit_app_def)
  have f5: "search_geo_news S q
          (emit INFO (SearchingSource (str ''Geo'')) (emit INFO (SearchingAllSources q) (globals a))) = (w1, Inr r1) \<and>
    search_bbc_news S q (emit INFO (SearchingSource (str ''BBC'')) w1) = (w2, Inr r2) \<and>
    search_ary_news S q (emit INFO (SearchingSource (str ''ARY'')) w2) = (w3, Inr r3) \<and>
    search_samaa_news S q (emit INFO (SearchingSource (str ''Samaa'')) w3) = (w4, Inr r4) \<and>
    search_dawn_news S q (emit INFO (SearchingSource (str ''Dawn'')) w4) = (w5, Inl e) \<longrightarrow>
        search_all_sources S q a = (a\<lparr>globals := w5, invoked := invoked a @ [''geo'', ''bbc'', ''ary'', ''samaa'', ''dawn'']\<rparr>, Inl e)"
    by (simp add: search_all_sources_def Let_def extend_with_def call_adapter_def emit_app_def)
  have g: "search_all_sources S q a = (a1, Inl e) \<longrightarrow>
      (\<exists>k<5. invoked a1 = invoked a @ take (Suc k) source_order \<and>
              raised_by S q e (source_order ! k)) \<and>
      db a1 = db a \<and>
      (py_strip (args_get as ''query'' []) = q \<and> q \<noteq> [] \<and>
       str_lower E (args_get as ''source'' (str ''all'')) = str ''all'' \<longrightarrow>
         search_news E S as a =
           (emit_app ERROR (EndpointError e) a1, (500, ErrorBody (exn_text e))))"
  proof
    assume r: "search_all_sources S q a = (a1, Inl e)"
    from search_all_sources_inv [of S q a] obtain st where
      inv: "run_inv S q a 5 st" and
      eq: "search_all_sources S q a =
         (case st of (a1, Inl e) \<Rightarrow> (a1, Inl e)
          | (a1, Inr rs) \<Rightarrow> (emit_app INFO (TotalResults (length rs)) a1, Inr rs))"
      by blast
    from eq r have st: "st = (a1, Inl e)"
      by (cases st; cases "snd st") (auto split: sum.splits)
    with inv have "(\<exists>k<5. invoked a1 = invoked a @ take (Suc k) source_order \<and>
                  raised_by S q e (source_order ! k)) \<and> db a1 = db a"
      by (simp add: run_inv_def)
    moreover have "py_strip (args_get as ''query'' []) = q \<and> q \<noteq> [] \<and>
            str_lower E (args_get as ''source'' (str ''all'')) = str ''all'' \<longrightarrow>
              search_news E S as a =
                (emit_app ERROR (EndpointError e) a1, (500, ErrorBody (exn_text e)))"
      using r by (simp add: search_news_def Let_def dispatch_all)
    ultimately show "(\<exists>k<5. invoked a1 = invoked a @ take (Suc k) source_order \<and>
              raised_by S q e (source_order ! k)) \<and>
      db a1 = db a \<and>
      (py_strip (args_get as ''query'' []) = q \<and> q \<noteq> [] \<and>
       str_lower E (args_get as ''source'' (str ''all'')) = str ''all'' \<longrightarrow>
         search_news E S as a =
           (emit_app ERROR (EndpointError e) a1, (500, ErrorBody (exn_text e))))"
      by blast
  qed
  from f1 f2 f3 f4 f5 g show ?thesis by (intro conjI)
qed

theorem search_all_sources_raise_witness:
  "search_geo_news failing_scraper (str ''floods'')
     (emit INFO (SearchingSource (str ''Geo'')) (emit INFO (SearchingAllSources (str ''floods'')) (globals app0))) =
     ((emit INFO (SearchingSource (str ''Geo'')) (emit INFO (SearchingAllSources (str ''floods'')) world0)), Inr [sample_headline (str ''from geo'')]) \<and>
   search_bbc_news failing_scraper (str ''floods'') (emit INFO (SearchingSource (str ''BBC'')) (emit INFO (SearchingSource (str ''Geo'')) (emit INFO (SearchingAllSources (str ''floods'')) world0))) =
     ((emit INFO (SearchingSource (str ''BBC'')) (emit INFO (SearchingSource (str ''Geo'')) (emit INFO (SearchingAllSources (str ''floods'')) world0))), Inl (Exception (str ''parser error''))) \<and>
   search_all_sources failing_scraper (str ''floods'') app0 =
     ((app0\<lparr>globals := emit INFO (SearchingSource (str ''BBC''))
                            (emit INFO (SearchingSource (str ''Geo''))
                               (emit INFO (SearchingAllSources (str ''floods'')) world0)),
           invoked := [''geo'', ''bbc'']\<rparr>), Inl (Exception (str ''parser error''))) \<and>
   py_strip (args_get [(''query'', str ''floods'')] ''query'' []) = str ''floods'' \<and>
   str ''floods'' \<noteq> [] \<and>
   str_lower sample_env (args_get [(''query'', str ''floods'')] ''source'' (str ''all'')) = str ''all'' \<and>
   search_news sample_env failing_scraper [(''query'', str ''floods'')] app0 =
     (emit_app ERROR (EndpointError (Exception (str ''parser error''))) (app0\<lparr>globals := emit INFO (SearchingSource (str ''BBC''))
                            (emit INFO (SearchingSource (str ''Geo''))
                               (emit INFO (SearchingAllSources (str ''floods'')) world0)),
           invoked := [''geo'', ''bbc'']\<rparr>),
      (500, ErrorBody (str ''parser error''))) \<and>
   db (app0\<lparr>globals := emit INFO (SearchingSource (str ''BBC''))
                            (emit INFO (SearchingSource (str ''Geo''))
                               (emit INFO (SearchingAllSources (str ''floods'')) world0)),
           invoked := [''geo'', ''bbc'']\<rparr>) = db app0"
proof -
  have ne: "str ''floods'' \<noteq> []" by (simp add: str_def)
  have g: "search_geo_news failing_scraper (str ''floods'')
     (emit INFO (SearchingSource (str ''Geo'')) (emit INFO (SearchingAllSources (str ''floods'')) (globals app0))) =
     ((emit INFO (SearchingSource (str ''Geo'')) (emit INFO (SearchingAllSources (str ''floods'')) world0)), Inr [sample_headline (str ''from geo'')])"
    by (simp add: failing_scraper_def app0_def)
  have b: "search_bbc_news failing_scraper (str ''floods'') (emit INFO (SearchingSource (str ''BBC'')) (emit INFO (SearchingSource (str ''Geo'')) (emit INFO (SearchingAllSources (str ''floods'')) world0))) =
     ((emit INFO (SearchingSource (str ''BBC'')) (emit INFO (SearchingSource (str ''Geo'')) (emit INFO (SearchingAllSources (str ''floods'')) world0))), Inl (Exception (str ''parser error'')))"
    by (simp add: failing_scraper_def)
  note t = search_all_sources_raise [where S = failing_scraper and q = "str ''floods''" and a = app0
      and ?w1.0 = "(emit INFO (SearchingSource (str ''Geo'')) (emit INFO (SearchingAllSources (str ''floods'')) world0))" and ?r1.0 = "[sample_headline (str ''from geo'')]"
      and ?w2.0 = "(emit INFO (SearchingSource (str ''BBC'')) (emit INFO (SearchingSource (str ''Geo'')) (emit INFO (SearchingAllSources (str ''floods'')) world0)))" and e = "Exception (str ''parser error'')"
      and ?a1.0 = "(app0\<lparr>globals := emit INFO (SearchingSource (str ''BBC''))                             (emit INFO (SearchingSource (str ''Geo''))                                (emit INFO (SearchingAllSources (str ''floods'')) world0)),            invoked := [''geo'', ''bbc'']\<rparr>)"
      and as = "[(''query'', str ''floods'')]" and E = sample_env]
  from t g b have "search_all_sources failing_scraper (str ''floods'') app0 =
     (app0\<lparr>globals := (emit INFO (SearchingSource (str ''BBC'')) (emit INFO (SearchingSource (str ''Geo'')) (emit INFO (SearchingAllSources (str ''floods'')) world0))), invoked := invoked app0 @ [''geo'', ''bbc'']\<rparr>,
      Inl (Exception (str ''parser error'')))"
    by blast
  then have run: "search_all_sources failing_scraper (str ''floods'') app0 =
     ((app0\<lparr>globals := emit INFO (SearchingSource (str ''BBC''))
                            (emit INFO (SearchingSource (str ''Geo''))
                               (emit INFO (SearchingAllSources (str ''floods'')) world0)),
           invoked := [''geo'', ''bbc'']\<rparr>), Inl (Exception (str ''parser error'')))"
    by (simp add: app0_def)
  from t run sample_query sample_default_source ne
  have "search_news sample_env failing_scraper [(''query'', str ''floods'')] app0 =
     (emit_app ERROR (EndpointError (Exception (str ''parser error''))) (app0\<lparr>globals := emit INFO (SearchingSource (str ''BBC''))
                            (emit INFO (SearchingSource (str ''Geo''))
                               (emit INFO (SearchingAllSources (str ''floods'')) world0)),
           invoked := [''geo'', ''bbc'']\<rparr>),
      (500, ErrorBody (exn_text (Exception (str ''parser error'')))))"
    by blast
  with g b run sample_query sample_default_source ne show ?thesis by simp
qed

text \<open>
  C1 as stated fails: with a BBC adapter that raises, search-all returns no result list but
  the exception, and the ARY, Samaa and Dawn adapters are never invoked although the ARY
  adapter would have found an article.
\<close>

theorem search_all_sources_aborts:
  "snd (search_all_sources failing_scraper (str ''floods'') app0) = Inl (Exception (str ''parser error'')) \<and>
   invoked (fst (search_all_sources failing_scraper (str ''floods'') app0)) = [''geo'', ''bbc''] \<and>
   search_ary_news failing_scraper (str ''floods'') world0 = (world0, Inr [sample_headline (str ''from ary'')])"
  by (simp add: failing_run) (simp add: failing_scraper_def)

section \<open>Request validation of the live-search endpoint\<close>

lemma sample_unknown_source:
  "str_lower sample_env (args_get [(''query'', str ''floods''), (''source'', str ''CNN'')] ''source'' (str ''all''))
     = str ''cnn''"
  by (simp add: args_get_def sample_env_def ascii_lower_def str_def)

lemma cnn_unknown: "str ''cnn'' \<notin> known_sources"
  by (simp add: known_sources_def str_def)

lemma upper_geo_lower:
  "str_lower sample_env (args_get [(''query'', str ''floods''), (''source'', str ''GEO'')] ''source'' (str ''all''))
     = str ''geo''"
  by (simp add: args_get_def sample_env_def ascii_lower_def str_def)

text \<open>
  C7, amended.  A live-search request whose query is missing or empty after stripping gets
  status 400, and so does a request whose source selector, once lower-cased, is none of the
  five source names or "all"; in both cases the application state is unchanged, so no
  adapter was invoked.
\<close>

theorem search_news_rejects:
  "(py_strip (args_get as ''query'' []) = [] \<longrightarrow>
      search_news E S as a = (a, (400, ErrorBody (str ''Query parameter is required'')))) \<and>
   (str_lower E (args_get as ''source'' (str ''all'')) \<notin> known_sources \<longrightarrow>
      fst (search_news E S as a) = a \<and> fst (snd (search_news E S as a)) = 400)"
  by (simp add: search_news_def Let_def dispatch_def known_sources_def)

theorem search_news_rejects_witness:
  "py_strip (args_get [(''source'', str ''geo'')] ''query'' []) = [] \<and>
   search_news sample_env failing_scraper [(''source'', str ''geo'')] app0 =
     (app0, (400, ErrorBody (str ''Query parameter is required''))) \<and>
   str_lower sample_env
     (args_get [(''query'', str ''floods''), (''source'', str ''CNN'')] ''source'' (str ''all''))
     \<notin> known_sources \<and>
   fst (search_news sample_env failing_scraper [(''query'', str ''floods''), (''source'', str ''CNN'')] app0) = app0 \<and>
   fst (snd (search_news sample_env failing_scraper [(''query'', str ''floods''), (''source'', str ''CNN'')] app0)) = 400 \<and>
   invoked app0 = []"
proof -
  have q: "py_strip (args_get [(''source'', str ''geo'')] ''query'' []) = []"
    by (simp add: args_get_def py_strip_def)
  have u: "str_lower sample_env
     (args_get [(''query'', str ''floods''), (''source'', str ''CNN'')] ''source'' (str ''all''))
     \<notin> known_sources"
    by (simp only: sample_unknown_source cnn_unknown not_False_eq_True)
  from search_news_rejects [of "[(''source'', str ''geo'')]" sample_env failing_scraper app0] q
  have 1: "search_news sample_env failing_scraper [(''source'', str ''geo'')] app0 =
     (app0, (400, ErrorBody (str ''Query parameter is required'')))"
    by blast
  from search_news_rejects [of "[(''query'', str ''floods''), (''source'', str ''CNN'')]" sample_env
      failing_scraper app0] u
  have 2: "fst (search_news sample_env failing_scraper [(''query'', str ''floods''), (''source'', str ''CNN'')] app0) = app0 \<and>
   fst (snd (search_news sample_env failing_scraper [(''query'', str ''floods''), (''source'', str ''CNN'')] app0)) = 400"
    by blast
  have 3: "invoked app0 = []" by (simp add: app0_def)
  from q u 1 2 3 show ?thesis by blast
qed

text \<open>
  C7 as stated fails: the selector \<open>GEO\<close> is none of the six selectors, yet the endpoint
  lower-cases it, invokes the Geo adapter and answers with status 200.
\<close>

theorem search_news_uppercase_selector:
  "str ''GEO'' \<notin> known_sources \<and>
   fst (snd (search_news sample_env quiet_scraper
               [(''query'', str ''floods''), (''source'', str ''GEO'')] app0)) = 200 \<and>
   invoked (fst (search_news sample_env quiet_scraper
               [(''query'', str ''floods''), (''source'', str ''GEO'')] app0)) = [''geo'']"
proof -
  have a: "str ''GEO'' \<notin> known_sources" by (simp add: known_sources_def str_def)
  have q: "py_strip (args_get [(''query'', str ''floods''), (''source'', str ''GEO'')] ''query'' []) = str ''floods''"
    by (simp add: args_get_def py_strip_def str_def py_isspace_def)
  have ne: "str ''floods'' \<noteq> []" by (simp add: str_def)
  have d: "dispatch quiet_scraper (str ''geo'') (str ''floods'') app0 =
             Some (app0\<lparr>invoked := [''geo'']\<rparr>, Inr [])"
    by (simp add: dispatch_def call_adapter_def quiet_scraper_def app0_def)
  have "search_news sample_env quiet_scraper [(''query'', str ''floods''), (''source'', str ''GEO'')] app0 =
          (app0\<lparr>invoked := [''geo'']\<rparr>, (200, SuccessBody (str ''floods'') (str ''geo'') 0 []))"
    by (simp add: search_news_def Let_def q ne upper_geo_lower d) (simp add: save_results_def app0_def)
  with a show ?thesis by simp
qed

section \<open>The summariser on every text\<close>

lemma has_text_py_strip: "has_text s \<Longrightarrow> has_text (py_strip s)"
  using py_strip_split [of s] trimmed_has_text [of "py_strip s"] by blast

lemma has_text_take: "trimmed c \<Longrightarrow> 0 < n \<Longrightarrow> has_text (take n c)"
proof -
  assume t: "trimmed c" and n: "0 < n"
  then obtain x xs where c: "c = x # xs" and nx: "\<not> py_isspace x"
    unfolding trimmed_def by (cases c) simp_all
  from n obtain k where "n = Suc k" by (cases n) simp_all
  with c have "take n c = x # take k xs" by simp
  with nx show ?thesis by (simp add: has_text_iff)
qed

lemma has_text_normalize_ws: "has_text s \<Longrightarrow> has_text (normalize_ws s)"
  using normalize_ws_nonempty [of s] normalize_ws_trimmed [of s] trimmed_has_text [of "normalize_ws s"]
  by blast

lemma truncation_fallback_nonempty: "t \<noteq> [] \<Longrightarrow> truncation_fallback t \<noteq> []"
  by (simp add: truncation_fallback_def)

lemma summarize_chunks_partials:
  "engine_speaks eng \<Longrightarrow> \<forall>c \<in> set chunks. trimmed c \<Longrightarrow> \<forall>p \<in> set ps. has_text p \<Longrightarrow>
   \<forall>p \<in> set (snd (summarize_chunks eng chunks w ps)). has_text p"
proof (induction chunks arbitrary: w ps)
  case Nil
  then show ?case by simp
next
  case (Cons chunk rest)
  from Cons.prems(2) have tc: "trimmed chunk" and tr: "\<forall>c \<in> set rest. trimmed c" by simp_all
  define w1 where "w1 = w\<lparr>engine_inputs := engine_inputs w @ [chunk]\<rparr>"
  show ?case
  proof (cases "eng chunk 120 40")
    case (Inl e)
    from tc have "has_text (take 300 chunk)" by (rule has_text_take) simp
    with Cons.prems(3) have "\<forall>p \<in> set (ps @ [take 300 chunk]). has_text p" by simp
    from Cons.IH [OF Cons.prems(1) tr this] Inl show ?thesis
      by (simp add: Let_def)
  next
    case (Inr summary)
    with Cons.prems(1) have "has_text summary" unfolding engine_speaks_def by blast
    then have "has_text (py_strip summary)" by (rule has_text_py_strip)
    with Cons.prems(3) have "\<forall>p \<in> set (ps @ [py_strip summary]). has_text p" by simp
    from Cons.IH [OF Cons.prems(1) tr this] Inr show ?thesis
      by (simp add: Let_def)
  qed
qed

lemma summarize_chunks_length:
  "length (snd (summarize_chunks eng chunks w ps)) = length ps + length chunks"
proof (induction chunks arbitrary: w ps)
  case Nil
  then show ?case by simp
next
  case (Cons chunk rest)
  then show ?case by (cases "eng chunk 120 40") (simp_all add: Let_def)
qed

lemma summarize_with_returns: "\<exists>w' s. summarize_with eng w t = (w', Inr s)"
proof -
  obtain w1 ps where sc: "summarize_chunks eng (chunk_text t 700) w [] = (w1, ps)"
    by (cases "summarize_chunks eng (chunk_text t 700) w []")
  define combined where "combined = normalize_ws (py_join [32] ps)"
  show ?thesis
  proof (cases "py_len combined \<le> 500")
    case True
    with sc show ?thesis by (simp add: summarize_with_def combined_def Let_def)
  next
    case False
    with sc show ?thesis
      by (cases "eng combined 150 50") (simp_all add: summarize_with_def combined_def Let_def)
  qed
qed

lemma summarize_with_nonempty:
  assumes "engine_speaks eng" and "has_text t" and "summarize_with eng w t = (w', Inr s)"
  shows "s \<noteq> []"
proof -
  obtain w1 ps where sc: "summarize_chunks eng (chunk_text t 700) w [] = (w1, ps)"
    by (cases "summarize_chunks eng (chunk_text t 700) w []")
  have tr: "\<forall>c \<in> set (chunk_text t 700). trimmed c"
    using chunk_text_ok [of _ t 700] assms(2) by blast
  have "\<forall>p \<in> set (snd (summarize_chunks eng (chunk_text t 700) w [])). has_text p"
    by (rule summarize_chunks_partials [OF assms(1) tr]) simp
  with sc have ht: "\<forall>p \<in> set ps. has_text p" by simp
  have "length (snd (summarize_chunks eng (chunk_text t 700) w [])) = length (chunk_text t 700)"
    by (simp add: summarize_chunks_length)
  with sc chunk_text_nonempty [OF assms(2), of 700] have "ps \<noteq> []" by auto
  then obtain p where p: "p \<in> set ps" by (cases ps) auto
  with ht have "has_text p" by blast
  with p have "has_text (py_join [32] ps)" by (rule has_text_py_join)
  then have "has_text (normalize_ws (py_join [32] ps))" by (rule has_text_normalize_ws)
  define combined where "combined = normalize_ws (py_join [32] ps)"
  from \<open>has_text (normalize_ws (py_join [32] ps))\<close> have hc: "has_text combined" by (simp add: combined_def)
  then have cne: "combined \<noteq> []" by (auto simp: has_text_iff)
  show ?thesis
  proof (cases "py_len combined \<le> 500")
    case True
    with sc assms(3) cne show ?thesis
      by (simp add: summarize_with_def combined_def Let_def)
  next
    case False
    show ?thesis
    proof (cases "eng combined 150 50")
      case (Inl e)
      with False sc assms(3) have "s = truncation_fallback combined"
        by (simp add: summarize_with_def combined_def Let_def)
      with cne show ?thesis by (simp add: truncation_fallback_nonempty)
    next
      case (Inr fin)
      with assms(1) have "has_text fin" unfolding engine_speaks_def by blast
      then have "py_strip fin \<noteq> []" by (simp add: py_strip_nonempty)
      moreover from Inr False sc assms(3) have "s = py_strip fin"
        by (simp add: summarize_with_def combined_def Let_def)
      ultimately show ?thesis by simp
    qed
  qed
qed

lemma split_ws_letters:
  "\<not> py_isspace c \<Longrightarrow>
   split_ws w (replicate n c) = (if w = [] \<and> n = 0 then [] else [w @ replicate n c])"
proof (induction n arbitrary: w)
  case 0
  then show ?case by simp
next
  case (Suc n)
  then show ?case by (simp add: replicate_app_Cons_same)
qed

lemma long_text_facts:
  "py_len long_text = 401" "has_text long_text" "normalize_ws long_text = long_text" "long_text \<noteq> []"
proof -
  have a: "\<not> py_isspace 97" by (simp add: py_isspace_def)
  show "py_len long_text = 401" by (simp add: long_text_def py_len_def)
  show "long_text \<noteq> []" by (simp add: long_text_def)
  have "97 \<in> set long_text" by (simp add: long_text_def)
  with a show "has_text long_text" unfolding has_text_iff by blast
  show "normalize_ws long_text = long_text"
    by (simp add: normalize_ws_def py_split_def long_text_def split_ws_letters [OF a])
qed

lemma long_text_chunks: "chunk_text long_text 700 = [long_text]"
  by (simp add: chunk_text_def long_text_facts)

lemma get_summarizer_fresh:
  "snd (get_summarizer (Inr eng) world0) = Some eng"
  "snd (get_summarizer (Inl e) world0) = None"
  by (simp_all add: get_summarizer_def load_models_with_caching_def world0_def emit_def Let_def)

lemma fixed_engine_speaks: "engine_speaks fixed_engine"
  by (simp add: engine_speaks_def fixed_engine_def has_text_def str_def py_isspace_def)

lemma failing_engine_speaks: "engine_speaks failing_engine"
  by (simp add: engine_speaks_def failing_engine_def)

lemma blank_summary: "snd (summarize_text (Inr blank_engine) world0 long_text) = Inr []"
proof -
  obtain w1 where gs: "get_summarizer (Inr blank_engine) world0 = (w1, Some blank_engine)"
    using get_summarizer_fresh(1) [of blank_engine]
    by (cases "get_summarizer (Inr blank_engine) world0") simp
  have e: "py_strip [] = []" by (simp add: py_strip_def)
  have n: "normalize_ws [] = []" by (simp add: normalize_ws_def py_split_def)
  have "snd (summarize_with blank_engine w1 long_text) = Inr []"
    by (simp add: summarize_with_def long_text_chunks blank_engine_def Let_def e n py_len_def)
  then obtain w2 where "summarize_with blank_engine w1 long_text = (w2, Inr [])"
    by (cases "summarize_with blank_engine w1 long_text") simp
  with gs show ?thesis
    by (simp add: summarize_text_def long_text_facts Let_def)
qed

lemma space_summary: "snd (summarize_text (Inr fixed_engine) world0 (str '' '')) = Inr []"
  by (simp add: summarize_text_def str_def normalize_ws_def py_split_def py_isspace_def py_len_def)

text \<open>
  C2, amended.  For every input string, every state of the globals and every behaviour of
  the pipeline constructor and the engine, \<open>summarize\<close> returns a string and raises
  nothing.  The string is non-empty whenever the input has a code point that is not
  whitespace and either its normalised form is at most 400 long, or no engine is available,
  or every summary the engine in use returns has a code point that is not whitespace.
\<close>

theorem summarize_text_total:
  "\<exists>w' s. summarize_text P w T = (w', Inr s) \<and>
      (has_text T \<and>
       (py_len (normalize_ws T) \<le> 400 \<or>
        (\<forall>eng. snd (get_summarizer P w) = Some eng \<longrightarrow> engine_speaks eng)) \<longrightarrow> s \<noteq> [])"
proof (cases "T = []")
  case True
  then show ?thesis by (simp add: summarize_text_def has_text_def)
next
  case ne: False
  define t where "t = normalize_ws T"
  have tne: "has_text T \<Longrightarrow> t \<noteq> []" by (simp add: t_def normalize_ws_nonempty)
  have tht: "has_text T \<Longrightarrow> has_text t" unfolding t_def by (rule has_text_normalize_ws)
  show ?thesis
  proof (cases "py_len t \<le> 400")
    case True
    with ne have "summarize_text P w T = (w, Inr t)"
      by (simp add: summarize_text_def t_def Let_def)
    with tne show ?thesis by simp
  next
    case long: False
    obtain w1 h where gs: "get_summarizer P w = (w1, h)" by (cases "get_summarizer P w")
    show ?thesis
    proof (cases h)
      case None
      with ne long gs have "summarize_text P w T =
          (emit WARNING SummarizerUnavailable w1, Inr (truncation_fallback t))"
        by (simp add: summarize_text_def t_def Let_def)
      moreover have "has_text T \<Longrightarrow> truncation_fallback t \<noteq> []"
        using tne by (simp add: truncation_fallback_nonempty)
      ultimately show ?thesis by auto
    next
      case (Some eng)
      from summarize_with_returns [of eng w1 t] obtain w2 s where
        sw: "summarize_with eng w1 t = (w2, Inr s)" by blast
      with ne long gs Some have st: "summarize_text P w T = (w2, Inr s)"
        by (simp add: summarize_text_def t_def Let_def)
      have "has_text T \<and> (\<forall>e. snd (get_summarizer P w) = Some e \<longrightarrow> engine_speaks e) \<longrightarrow> s \<noteq> []"
      proof
        assume a: "has_text T \<and> (\<forall>e. snd (get_summarizer P w) = Some e \<longrightarrow> engine_speaks e)"
        with gs Some have "engine_speaks eng" by simp
        moreover from a have "has_text t" by (simp add: tht)
        ultimately show "s \<noteq> []" using sw by (rule summarize_with_nonempty)
      qed
      with st long show ?thesis unfolding t_def by auto
    qed
  qed
qed

theorem summarize_text_total_witness:
  "has_text long_text \<and>
   snd (get_summarizer (Inr fixed_engine) world0) = Some fixed_engine \<and>
   engine_speaks fixed_engine \<and>
   (\<exists>w' s. summarize_text (Inr fixed_engine) world0 long_text = (w', Inr s) \<and> s \<noteq> []) \<and>
   snd (get_summarizer (Inr failing_engine) world0) = Some failing_engine \<and>
   engine_speaks failing_engine \<and>
   (\<exists>w' s. summarize_text (Inr failing_engine) world0 long_text = (w', Inr s) \<and> s \<noteq> []) \<and>
   snd (get_summarizer (Inl (Exception (str ''no model''))) world0) = None \<and>
   (\<exists>w' s. summarize_text (Inl (Exception (str ''no model''))) world0 long_text = (w', Inr s) \<and> s \<noteq> [])"
proof -
  have a: "\<forall>eng. snd (get_summarizer (Inr fixed_engine) world0) = Some eng \<longrightarrow> engine_speaks eng"
    by (simp add: get_summarizer_fresh fixed_engine_speaks)
  have b: "\<forall>eng. snd (get_summarizer (Inl (Exception (str ''no model''))) world0) = Some eng \<longrightarrow>
             engine_speaks eng"
    by (simp add: get_summarizer_fresh)
  have c: "\<forall>eng. snd (get_summarizer (Inr failing_engine) world0) = Some eng \<longrightarrow> engine_speaks eng"
    by (simp add: get_summarizer_fresh failing_engine_speaks)
  from summarize_text_total [of "Inr fixed_engine" world0 long_text] a long_text_facts(2)
  have 1: "\<exists>w' s. summarize_text (Inr fixed_engine) world0 long_text = (w', Inr s) \<and> s \<noteq> []"
    by blast
  from summarize_text_total [of "Inl (Exception (str ''no model''))" world0 long_text] b long_text_facts(2)
  have 2: "\<exists>w' s. summarize_text (Inl (Exception (str ''no model''))) world0 long_text = (w', Inr s) \<and> s \<noteq> []"
    by blast
  from summarize_text_total [of "Inr failing_engine" world0 long_text] c long_text_facts(2)
  have 3: "\<exists>w' s. summarize_text (Inr failing_engine) world0 long_text = (w', Inr s) \<and> s \<noteq> []"
    by blast
  from 1 2 3 long_text_facts(2) fixed_engine_speaks failing_engine_speaks get_summarizer_fresh
  show ?thesis by blast
qed

text \<open>
  C2 as stated fails: the non-empty input of one space is summarised to the empty string,
  and so is a text of 401 letters when the engine answers with the empty string.
\<close>

theorem summarize_text_empty_result:
  "str '' '' \<noteq> [] \<and>
   snd (summarize_text (Inr fixed_engine) world0 (str '' '')) = Inr [] \<and>
   long_text \<noteq> [] \<and> has_text long_text \<and>
   snd (summarize_text (Inr blank_engine) world0 long_text) = Inr []"
  using long_text_facts(2,4) blank_summary space_summary by (simp add: str_def)

end
